theory Spec2Isabelle
  imports Main "HOL-Library.Product_Lexorder" "HOL-Library.Sublist" "HOL-Library.Multiset"
begin

section \<open>Strings\<close>

text \<open>
  A Python \<open>str\<close> is a sequence of code points. It is modelled as a \<open>string\<close> in which
  every \<open>char\<close> stands for one code point below 256; the tables of whitespace and of
  letter case below are the ones of \<open>str.isspace\<close> and \<open>str.lower\<close> on that range.
\<close>

definition newline :: char where
  "newline = CHR 0x0A"

definition whitespace :: string where
  "whitespace = [CHR 0x20, CHR 0x09, CHR 0x0A, CHR 0x0B, CHR 0x0C, CHR 0x0D,
                 CHR 0x1C, CHR 0x1D, CHR 0x1E, CHR 0x1F, CHR 0x85, CHR 0xA0]"

definition isspace :: "char \<Rightarrow> bool" where
  "isspace c = (c \<in> set whitespace)"

definition strip :: "string \<Rightarrow> string" where
  \<comment> \<open>\<open>str.strip()\<close>: leading and trailing whitespace removed.\<close>
  "strip s = rev (dropWhile isspace (rev (dropWhile isspace s)))"

definition lower_char :: "char \<Rightarrow> char" where
  "lower_char c =
     (let n = (of_char c :: nat)
      in if (65 \<le> n \<and> n \<le> 90) \<or> (192 \<le> n \<and> n \<le> 222 \<and> n \<noteq> 215)
         then char_of (n + 32) else c)"

definition lower :: "string \<Rightarrow> string" where
  \<comment> \<open>\<open>str.lower()\<close>.\<close>
  "lower s = map lower_char s"

fun startswith :: "string \<Rightarrow> string \<Rightarrow> bool" where
  "startswith s [] = True"
| "startswith [] (p # ps) = False"
| "startswith (c # cs) (p # ps) = (c = p \<and> startswith cs ps)"

fun isin :: "string \<Rightarrow> string \<Rightarrow> bool" where
  \<comment> \<open>\<open>needle in hay\<close>: substring test.\<close>
  "isin needle [] = (needle = [])"
| "isin needle (c # cs) = (startswith (c # cs) needle \<or> isin needle cs)"

fun split_on :: "char \<Rightarrow> string \<Rightarrow> string list" where
  \<comment> \<open>\<open>str.split(sep)\<close> for a separator of one character.\<close>
  "split_on sep [] = [[]]"
| "split_on sep (c # cs) =
     (if c = sep then [] # split_on sep cs
      else (c # hd (split_on sep cs)) # tl (split_on sep cs))"

fun join_on :: "char \<Rightarrow> string list \<Rightarrow> string" where
  \<comment> \<open>\<open>sep.join(parts)\<close> for a separator of one character.\<close>
  "join_on sep [] = []"
| "join_on sep [x] = x"
| "join_on sep (x # y # ys) = x @ sep # join_on sep (y # ys)"

fun py_int :: "string \<Rightarrow> nat" where
  \<comment> \<open>\<open>int(s)\<close> on a run of ASCII digits, optionally surrounded by whitespace.\<close>
  "py_int s = foldl (\<lambda>n c. 10 * n + (of_char c - 48)) 0 (strip s)"

section \<open>Regular expressions with backtracking\<close>

text \<open>
  \<open>re.match\<close> anchors at the start of the string, tries alternatives from left to right
  and quantifiers greedily, and returns the first complete match it finds. The matcher
  below returns every way a pattern can match, in that order of preference, each with the
  groups captured so far and the input that remains; the head of the list is the match
  Python reports.
\<close>

datatype cls = OneOf string | NoneOf string

fun cls_mem :: "cls \<Rightarrow> char \<Rightarrow> bool" where
  "cls_mem (OneOf cs) c = (c \<in> set cs)"
| "cls_mem (NoneOf cs) c = (c \<notin> set cs)"

datatype regex =
    Eps
  | Cls cls
  | Seq regex regex
  | Alt regex regex
  | Plus cls
  | Grp regex

fun plus_rest :: "cls \<Rightarrow> string \<Rightarrow> string list" where
  \<comment> \<open>What can remain after one or more characters of the class, longest run first.\<close>
  "plus_rest k [] = []"
| "plus_rest k (c # cs) = (if cls_mem k c then plus_rest k cs @ [cs] else [])"

fun rmatch :: "regex \<Rightarrow> string list \<times> string \<Rightarrow> (string list \<times> string) list" where
  "rmatch Eps st = [st]"
| "rmatch (Cls k) (g, s) =
     (case s of [] \<Rightarrow> [] | c # t \<Rightarrow> if cls_mem k c then [(g, t)] else [])"
| "rmatch (Seq a b) st = concat (map (rmatch b) (rmatch a st))"
| "rmatch (Alt a b) st = rmatch a st @ rmatch b st"
| "rmatch (Plus k) (g, s) = map (Pair g) (plus_rest k s)"
| "rmatch (Grp a) (g, s) =
     map (\<lambda>(g', s'). (g' @ [take (length s - length s') s], s')) (rmatch a (g, s))"

definition re_match :: "regex \<Rightarrow> string \<Rightarrow> string list option" where
  \<comment> \<open>\<open>re.match(pattern, line)\<close>, then \<open>.groups()\<close>; \<open>None\<close> when nothing matches.\<close>
  "re_match r s = (case rmatch r ([], s) of [] \<Rightarrow> None | (g, _) # _ \<Rightarrow> Some g)"

definition seqs :: "regex list \<Rightarrow> regex" where
  "seqs rs = foldr Seq rs Eps"

definition lit :: "char \<Rightarrow> regex" where
  "lit c = Cls (OneOf [c])"

definition digit :: regex where
  \<comment> \<open>\<open>\d\<close>\<close>
  "digit = Cls (OneOf ''0123456789'')"

definition space :: regex where
  \<comment> \<open>\<open>\s\<close>\<close>
  "space = Cls (OneOf whitespace)"

definition opt :: "regex \<Rightarrow> regex" where
  \<comment> \<open>\<open>r?\<close>, greedy\<close>
  "opt r = Alt r Eps"

definition d12 :: regex where
  \<comment> \<open>\<open>\d{1,2}\<close>\<close>
  "d12 = Seq digit (opt digit)"

definition d2 :: regex where
  \<comment> \<open>\<open>\d{2}\<close>\<close>
  "d2 = Seq digit digit"

definition d24 :: regex where
  \<comment> \<open>\<open>\d{2,4}\<close>\<close>
  "d24 = Seq digit (Seq digit (opt (Seq digit (opt digit))))"

section \<open>The line patterns of ChatParser\<close>

definition ANDROID_PATTERN :: regex where
  \<comment> \<open>\<^verbatim>\<open>(\d{1,2}/\d{1,2}/\d{2,4},\s\d{1,2}:\d{2}\s?[APap][Mm])\s-\s([^:]+):\s(.+)\<close>\<close>
  "ANDROID_PATTERN = seqs
     [Grp (seqs [d12, lit CHR ''/'', d12, lit CHR ''/'', d24, lit CHR '','', space,
                 d12, lit CHR '':'', d2, opt space, Cls (OneOf ''APap''), Cls (OneOf ''Mm'')]),
      space, lit CHR ''-'', space,
      Grp (Plus (NoneOf '':'')), lit CHR '':'', space,
      Grp (Plus (NoneOf [newline]))]"

definition IOS_PATTERN :: regex where
  \<comment> \<open>\<^verbatim>\<open>\[(\d{1,2}/\d{1,2}/\d{2,4},\s\d{1,2}:\d{2}:\d{2}\s?[APap][Mm])\]\s([^:]+):\s(.+)\<close>\<close>
  "IOS_PATTERN = seqs
     [lit CHR ''['',
      Grp (seqs [d12, lit CHR ''/'', d12, lit CHR ''/'', d24, lit CHR '','', space,
                 d12, lit CHR '':'', d2, lit CHR '':'', d2, opt space,
                 Cls (OneOf ''APap''), Cls (OneOf ''Mm'')]),
      lit CHR '']'', space,
      Grp (Plus (NoneOf '':'')), lit CHR '':'', space,
      Grp (Plus (NoneOf [newline]))]"

definition ALTERNATIVE_PATTERN :: regex where
  \<comment> \<open>\<^verbatim>\<open>(\d{1,2}/\d{1,2}/\d{2,4},\s\d{1,2}:\d{2})\s-\s([^:]+):\s(.+)\<close>\<close>
  "ALTERNATIVE_PATTERN = seqs
     [Grp (seqs [d12, lit CHR ''/'', d12, lit CHR ''/'', d24, lit CHR '','', space,
                 d12, lit CHR '':'', d2]),
      space, lit CHR ''-'', space,
      Grp (Plus (NoneOf '':'')), lit CHR '':'', space,
      Grp (Plus (NoneOf [newline]))]"

definition patterns :: "regex list" where
  "patterns = [ANDROID_PATTERN, IOS_PATTERN, ALTERNATIVE_PATTERN]"

fun first_match :: "regex list \<Rightarrow> string \<Rightarrow> string list option" where
  \<comment> \<open>The loop of \<open>_match_message\<close>: the first pattern that matches gives the groups.\<close>
  "first_match [] line = None"
| "first_match (p # ps) line =
     (case re_match p line of Some g \<Rightarrow> Some g | None \<Rightarrow> first_match ps line)"

definition match_message :: "string \<Rightarrow> string list option" where
  "match_message line = first_match patterns line"

section \<open>Errors and records\<close>

datatype error = ValueError string | FileNotFoundError string

record datetime =
  year :: nat
  month :: nat
  day :: nat
  hour :: nat
  minute :: nat
  second :: nat

definition dt_key :: "datetime \<Rightarrow> nat \<times> nat \<times> nat \<times> nat \<times> nat \<times> nat" where
  \<comment> \<open>Datetimes compare field by field, from the year down to the second.\<close>
  "dt_key d = (year d, month d, day d, hour d, minute d, second d)"

record Message =
  datetime :: datetime
  author :: string
  message :: string
  is_media :: bool
  is_system :: bool

record ChatParser =
  file_path :: "string option"
  messages :: "Message list"
  df :: "Message list option"

section \<open>datetime.strptime\<close>

text \<open>
  \<open>datetime.strptime\<close> is the standard library's: it turns the format into a regular
  expression (one group per directive, a run of whitespace into \<open>\s+\<close>), matches it
  against the data with \<open>re.match\<close>, rejects data that the match leaves unconsumed,
  reads the fields off the groups and builds the datetime, which checks the ranges of
  the calendar. Every failure is a \<open>ValueError\<close>. The table has the directives that the
  formats of \<open>_parse_datetime\<close> use; the regular expression is matched ignoring case,
  which matters for \<open>%p\<close> only, as no format has a letter outside a directive. The
  locale names the halves of the day \<open>am\<close> and \<open>pm\<close>.
\<close>

definition directive :: "char \<Rightarrow> regex option" where
  "directive d =
    (if d = CHR ''d'' then Some (Grp
        (Alt (Seq (lit CHR ''3'') (Cls (OneOf ''01'')))
        (Alt (Seq (Cls (OneOf ''12'')) digit)
        (Alt (Seq (lit CHR ''0'') (Cls (OneOf ''123456789'')))
        (Alt (Cls (OneOf ''123456789''))
             (Seq (lit CHR '' '') (Cls (OneOf ''123456789''))))))))
     else if d = CHR ''H'' then Some (Grp
        (Alt (Seq (lit CHR ''2'') (Cls (OneOf ''0123'')))
        (Alt (Seq (Cls (OneOf ''01'')) digit)
             digit)))
     else if d = CHR ''I'' \<or> d = CHR ''m'' then Some (Grp
        (Alt (Seq (lit CHR ''1'') (Cls (OneOf ''012'')))
        (Alt (Seq (lit CHR ''0'') (Cls (OneOf ''123456789'')))
             (Cls (OneOf ''123456789'')))))
     else if d = CHR ''M'' then Some (Grp
        (Alt (Seq (Cls (OneOf ''012345'')) digit)
             digit))
     else if d = CHR ''S'' then Some (Grp
        (Alt (Seq (lit CHR ''6'') (Cls (OneOf ''01'')))
        (Alt (Seq (Cls (OneOf ''012345'')) digit)
             digit)))
     else if d = CHR ''y'' then Some (Grp (Seq digit digit))
     else if d = CHR ''Y'' then Some (Grp (Seq digit (Seq digit (Seq digit digit))))
     else if d = CHR ''p'' then Some (Grp
        (Alt (Seq (Cls (OneOf ''aA'')) (Cls (OneOf ''mM'')))
             (Seq (Cls (OneOf ''pP'')) (Cls (OneOf ''mM'')))))
     else None)"

fun pattern :: "bool \<Rightarrow> string \<Rightarrow> (regex list \<times> string) option" where
  \<comment> \<open>The regular expression of a format and the directives of its groups, in order.
      The flag says that the character before was whitespace.\<close>
  "pattern ws [] = Some ([], [])"
| "pattern ws (c # cs) =
     (if isspace c then
        (if ws then pattern True cs
         else map_option (\<lambda>(rs, ks). (Plus (OneOf whitespace) # rs, ks)) (pattern True cs))
      else if c = CHR ''%'' then
        (case cs of
           [] \<Rightarrow> None
         | d # rest \<Rightarrow>
             (case directive d of
                None \<Rightarrow> None
              | Some r \<Rightarrow> map_option (\<lambda>(rs, ks). (r # rs, d # ks)) (pattern False rest)))
      else map_option (\<lambda>(rs, ks). (lit c # rs, ks)) (pattern False cs))"

record tm =
  tm_year :: "nat option"
  tm_month :: nat
  tm_day :: nat
  tm_hour :: nat
  tm_minute :: nat
  tm_second :: nat

definition tm0 :: tm where
  "tm0 = \<lparr>tm_year = None, tm_month = 1, tm_day = 1, tm_hour = 0, tm_minute = 0, tm_second = 0\<rparr>"

definition set_field :: "(char \<times> string) list \<Rightarrow> tm \<Rightarrow> char \<times> string \<Rightarrow> tm" where
  \<comment> \<open>One round of the loop over the groups that were found.\<close>
  "set_field found t kv =
    (case kv of (k, v) \<Rightarrow>
      if k = CHR ''y'' then
        t\<lparr>tm_year := Some (if py_int v \<le> 68 then py_int v + 2000 else py_int v + 1900)\<rparr>
      else if k = CHR ''Y'' then t\<lparr>tm_year := Some (py_int v)\<rparr>
      else if k = CHR ''m'' then t\<lparr>tm_month := py_int v\<rparr>
      else if k = CHR ''d'' then t\<lparr>tm_day := py_int v\<rparr>
      else if k = CHR ''H'' then t\<lparr>tm_hour := py_int v\<rparr>
      else if k = CHR ''I'' then
        (let h = py_int v;
             ampm = lower (case map_of found CHR ''p'' of Some p \<Rightarrow> p | None \<Rightarrow> [])
         in if ampm = [] \<or> ampm = ''am'' then t\<lparr>tm_hour := (if h = 12 then 0 else h)\<rparr>
            else if ampm = ''pm'' then t\<lparr>tm_hour := (if h \<noteq> 12 then h + 12 else h)\<rparr>
            else t\<lparr>tm_hour := h\<rparr>)
      else if k = CHR ''M'' then t\<lparr>tm_minute := py_int v\<rparr>
      else if k = CHR ''S'' then t\<lparr>tm_second := py_int v\<rparr>
      else t)"

definition is_leap :: "nat \<Rightarrow> bool" where
  "is_leap y = (y mod 4 = 0 \<and> (y mod 100 \<noteq> 0 \<or> y mod 400 = 0))"

definition days_in_month :: "nat \<Rightarrow> nat \<Rightarrow> nat" where
  "days_in_month y m =
     (if m = 2 then (if is_leap y then 29 else 28)
      else if m = 4 \<or> m = 6 \<or> m = 9 \<or> m = 11 then 30 else 31)"

definition make_datetime :: "nat \<Rightarrow> nat \<Rightarrow> nat \<Rightarrow> nat \<Rightarrow> nat \<Rightarrow> nat \<Rightarrow> error + datetime" where
  \<comment> \<open>The constructor \<open>datetime(year, month, day, hour, minute, second)\<close>.\<close>
  "make_datetime y mo d h mi s =
     (if y < 1 \<or> 9999 < y then Inl (ValueError ''year is out of range'')
      else if mo < 1 \<or> 12 < mo then Inl (ValueError ''month must be in 1..12'')
      else if d < 1 \<or> days_in_month y mo < d then Inl (ValueError ''day is out of range for month'')
      else if 23 < h then Inl (ValueError ''hour must be in 0..23'')
      else if 59 < mi then Inl (ValueError ''minute must be in 0..59'')
      else if 59 < s then Inl (ValueError ''second must be in 0..59'')
      else Inr \<lparr>year = y, month = mo, day = d, hour = h, minute = mi, second = s\<rparr>)"

definition strptime :: "string \<Rightarrow> string \<Rightarrow> error + datetime" where
  "strptime data_string format =
    (case pattern False format of
       None \<Rightarrow> Inl (ValueError ''bad directive in format'')
     | Some (rs, keys) \<Rightarrow>
        (case rmatch (seqs rs) ([], data_string) of
           [] \<Rightarrow> Inl (ValueError ''time data does not match format'')
         | (groups, rest) # _ \<Rightarrow>
            if rest \<noteq> [] then Inl (ValueError (''unconverted data remains: '' @ rest))
            else
              (let found = zip keys groups;
                   t = foldl (set_field found) tm0 found
               in make_datetime (case tm_year t of None \<Rightarrow> 1900 | Some y \<Rightarrow> y)
                    (tm_month t) (tm_day t) (tm_hour t) (tm_minute t) (tm_second t))))"

section \<open>ChatParser\<close>

definition formats :: "string list" where
  "formats =
    [''%d/%m/%Y, %I:%M %p'',
     ''%d/%m/%y, %I:%M %p'',
     ''%m/%d/%Y, %I:%M %p'',
     ''%m/%d/%y, %I:%M %p'',
     ''%d/%m/%Y, %H:%M'',
     ''%d/%m/%y, %H:%M'',
     ''%m/%d/%Y, %H:%M'',
     ''%m/%d/%y, %H:%M'',
     ''%d/%m/%Y, %I:%M:%S %p'',
     ''%d/%m/%y, %I:%M:%S %p'']"

fun try_formats :: "string list \<Rightarrow> string \<Rightarrow> datetime option" where
  \<comment> \<open>The loop of \<open>_parse_datetime\<close>: a format that raises \<open>ValueError\<close> is skipped.\<close>
  "try_formats [] timestamp = None"
| "try_formats (fmt # fmts) timestamp =
     (case strptime (strip timestamp) fmt of
        Inr d \<Rightarrow> Some d
      | Inl e \<Rightarrow> try_formats fmts timestamp)"

definition parse_datetime :: "string \<Rightarrow> error + datetime" where
  "parse_datetime timestamp =
     (case try_formats formats timestamp of
        Some d \<Rightarrow> Inr d
      | None \<Rightarrow> Inl (ValueError (''Could not parse datetime: '' @ timestamp)))"

definition media_indicators :: "string list" where
  "media_indicators =
    [''<Media omitted>'', ''image omitted'', ''video omitted'', ''audio omitted'',
     ''document omitted'', ''sticker omitted'', ''GIF omitted'',
     ''.jpg'', ''.png'', ''.mp4'', ''.pdf'']"

definition is_media_message :: "string \<Rightarrow> bool" where
  "is_media_message msg =
     list_ex (\<lambda>indicator. isin (lower indicator) (lower msg)) media_indicators"

definition system_indicators :: "string list" where
  "system_indicators =
    [''changed the subject'', ''changed this group'', ''created group'', ''added'',
     ''removed'', ''left'', ''joined using this group'', ''security code changed'',
     ''Messages and calls are end-to-end encrypted'', ''You deleted this message'',
     ''This message was deleted'']"

definition is_system_message :: "string \<Rightarrow> string \<Rightarrow> bool" where
  "is_system_message auth msg =
     list_ex (\<lambda>indicator. isin (lower indicator) (lower msg)) system_indicators"

definition open_message :: "datetime \<Rightarrow> string \<Rightarrow> string \<Rightarrow> Message" where
  \<comment> \<open>The dictionary that \<open>_parse_content\<close> builds for a header line.\<close>
  "open_message dt auth msg =
     \<lparr>datetime = dt, author = strip auth, message = strip msg,
      is_media = is_media_message msg, is_system = is_system_message auth msg\<rparr>"

definition seal :: "Message list \<Rightarrow> Message option \<Rightarrow> Message list" where
  \<comment> \<open>\<open>if current_message: messages.append(current_message)\<close>\<close>
  "seal msgs cur = (case cur of Some m \<Rightarrow> msgs @ [m] | None \<Rightarrow> msgs)"

definition parse_line :: "string \<Rightarrow> Message list \<Rightarrow> Message option
                     \<Rightarrow> error + (Message list \<times> Message option)" where
  \<comment> \<open>The body of the loop of \<open>_parse_content\<close>, on its two variables \<open>messages\<close> and
      \<open>current_message\<close>. A tuple of groups is unpacked into three names, which raises
      \<open>ValueError\<close> for any other length; an empty tuple is false.\<close>
  "parse_line line msgs cur =
     (if strip line = [] then Inr (msgs, cur)
      else
        (case match_message line of
           Some (g # gs) \<Rightarrow>
             (case g # gs of
                [timestamp, auth, msg] \<Rightarrow>
                  (case parse_datetime timestamp of
                     Inl e \<Rightarrow> Inl e
                   | Inr dt \<Rightarrow> Inr (seal msgs cur, Some (open_message dt auth msg)))
              | _ \<Rightarrow> Inl (ValueError ''wrong number of values to unpack''))
         | _ \<Rightarrow>
             (case cur of
                Some m \<Rightarrow> Inr (msgs, Some (m\<lparr>message := message m @ newline # strip line\<rparr>))
              | None \<Rightarrow> Inr (msgs, cur))))"

fun parse_lines :: "string list \<Rightarrow> Message list \<Rightarrow> Message option
                     \<Rightarrow> error + (Message list \<times> Message option)" where
  \<comment> \<open>The loop over the lines; an exception ends it.\<close>
  "parse_lines [] msgs cur = Inr (msgs, cur)"
| "parse_lines (line # rest) msgs cur =
     (case parse_line line msgs cur of
        Inl e \<Rightarrow> Inl e
      | Inr (msgs', cur') \<Rightarrow> parse_lines rest msgs' cur')"

definition parse_content :: "string \<Rightarrow> error + Message list" where
  "parse_content content =
     (case parse_lines (split_on newline content) [] None of
        Inl e \<Rightarrow> Inl e
      | Inr (msgs, cur) \<Rightarrow> Inr (seal msgs cur))"

definition init :: "string option \<Rightarrow> ChatParser" where
  \<comment> \<open>\<open>ChatParser(file_path)\<close>\<close>
  "init fp = \<lparr>file_path = fp, messages = [], df = None\<rparr>"

definition chosen_path :: "ChatParser \<Rightarrow> string option \<Rightarrow> string option" where
  \<comment> \<open>\<open>path = file_path or self.file_path\<close>: the argument unless it is \<open>None\<close> or empty.\<close>
  "chosen_path self fp =
     (case fp of Some p \<Rightarrow> if p \<noteq> [] then Some p else file_path self
               | None \<Rightarrow> file_path self)"

definition sorts_by_datetime :: "(Message list \<Rightarrow> Message list) \<Rightarrow> bool" where
  \<comment> \<open>What pandas promises of \<open>sort_values('datetime')\<close>: the same rows, in non-decreasing
      order of the column. Its default algorithm is quicksort, which is not stable, so the
      order of rows with equal timestamps is left open.\<close>
  "sorts_by_datetime srt =
     (\<forall>xs. sorted (map (\<lambda>m. dt_key (datetime m)) (srt xs)) \<and> mset (srt xs) = mset xs)"

definition load_chat :: "(Message list \<Rightarrow> Message list) \<Rightarrow> (string \<rightharpoonup> string) \<Rightarrow> ChatParser
                          \<Rightarrow> string option \<Rightarrow> error + (Message list \<times> ChatParser)" where
  \<comment> \<open>The sort of pandas is the first parameter. The file system is a map from paths to the
      decoded text of the files that exist. The returned table is \<open>self.df\<close>; the
      conversion of the datetime column keeps every value. When \<open>_parse_content\<close>
      raises, neither \<open>self.messages\<close> nor \<open>self.df\<close> is assigned.\<close>
  "load_chat sort_values fs self fp =
     (case chosen_path self fp of
        None \<Rightarrow> Inl (ValueError ''No file path provided'')
      | Some p \<Rightarrow>
          if p = [] then Inl (ValueError ''No file path provided'')
          else
            (case fs p of
               None \<Rightarrow> Inl (FileNotFoundError (''Chat file not found: '' @ p))
             | Some content \<Rightarrow>
                 (case parse_content content of
                    Inl e \<Rightarrow> Inl e
                  | Inr msgs \<Rightarrow>
                      (let table = (if msgs \<noteq> [] then sort_values msgs else msgs)
                       in Inr (table, self\<lparr>messages := msgs, df := Some table\<rparr>)))))"

record chat_info =
  total_messages :: nat
  participants :: nat
  participant_names :: "string list"
  date_range_start :: datetime
  date_range_end :: datetime
  media_messages :: nat
  system_messages :: nat
  text_messages :: nat

datatype info = EmptyDict | Info chat_info

definition dt_min :: "datetime \<Rightarrow> datetime \<Rightarrow> datetime" where
  "dt_min a b = (if dt_key b < dt_key a then b else a)"

definition dt_max :: "datetime \<Rightarrow> datetime \<Rightarrow> datetime" where
  "dt_max a b = (if dt_key a < dt_key b then b else a)"

definition get_chat_info :: "ChatParser \<Rightarrow> info" where
  \<comment> \<open>\<open>{}\<close> when no table was loaded or the table is empty.\<close>
  "get_chat_info self =
     (case df self of
        None \<Rightarrow> EmptyDict
      | Some [] \<Rightarrow> EmptyDict
      | Some (m # ms) \<Rightarrow>
          Info \<lparr>total_messages = length (m # ms),
                participants = length (remdups (map author (m # ms))),
                participant_names = rev (remdups (rev (map author (m # ms)))),
                date_range_start = foldl dt_min (datetime m) (map datetime ms),
                date_range_end = foldl dt_max (datetime m) (map datetime ms),
                media_messages = length (filter is_media (m # ms)),
                system_messages = length (filter is_system (m # ms)),
                text_messages = length (filter (\<lambda>x. \<not> is_media x \<and> \<not> is_system x) (m # ms))\<rparr>)"

section \<open>Predicates used in the statements\<close>

text \<open>
  A header line is a line that \<open>_match_message\<close> accepts with three groups and whose
  timestamp \<open>_parse_datetime\<close> accepts; its body is the third group. A continuation
  line is a line that is not blank and that no pattern accepts. One pattern precedes another
  when it comes earlier in the list that \<open>_match_message\<close> tries in order. A block is
  a header line with the continuation lines that follow it, and \<open>block_message\<close>
  relates it to the message that the loop of \<open>_parse_content\<close> builds from it.
  A message is opened by a header line when its author and its flags are what the loop
  computes from the groups of that line and its body starts with the stripped body of that
  line. The groups of a pattern are counted by \<open>groups\<close>, which is the number of
  groups of every match when the alternatives of the pattern have the same number of
  groups.
\<close>

definition header_body :: "string \<Rightarrow> string" where
  "header_body line = (case match_message line of Some g \<Rightarrow> (if length g = 3 then g ! 2 else []) | None \<Rightarrow> [])"

definition is_header :: "string \<Rightarrow> bool" where
  "is_header line = (case match_message line of
       Some g \<Rightarrow> length g = 3 \<and> \<not> isl (parse_datetime (g ! 0)) | None \<Rightarrow> False)"

definition is_continuation :: "string \<Rightarrow> bool" where
  "is_continuation line = (strip line \<noteq> [] \<and> match_message line = None)"

definition precedes :: "regex \<Rightarrow> regex \<Rightarrow> bool" where
  "precedes p q = (q \<in> set (tl (dropWhile (\<lambda>r. r \<noteq> p) patterns)))"

fun groups :: "regex \<Rightarrow> nat" where
  "groups Eps = 0"
| "groups (Cls k) = 0"
| "groups (Seq a b) = groups a + groups b"
| "groups (Alt a b) = groups a"
| "groups (Plus k) = 0"
| "groups (Grp a) = Suc (groups a)"

fun uniform :: "regex \<Rightarrow> bool" where
  "uniform Eps = True"
| "uniform (Cls k) = True"
| "uniform (Seq a b) = (uniform a \<and> uniform b)"
| "uniform (Alt a b) = (uniform a \<and> uniform b \<and> groups a = groups b)"
| "uniform (Plus k) = True"
| "uniform (Grp a) = uniform a"

definition header_author :: "string \<Rightarrow> string" where
  "header_author line = (case match_message line of Some g \<Rightarrow> (if length g = 3 then g ! 1 else []) | None \<Rightarrow> [])"

definition opened_by :: "string \<Rightarrow> Message \<Rightarrow> bool" where
  "opened_by h m = (author m = strip (header_author h)
       \<and> is_media m = is_media_message (header_body h)
       \<and> is_system m = is_system_message (header_author h) (header_body h)
       \<and> prefix (strip (header_body h)) (message m))"

definition block_message :: "string \<times> string list \<Rightarrow> Message \<Rightarrow> bool" where
  "block_message blk m = (case blk of (h, cs) \<Rightarrow>
     \<exists>ts a b dt. match_message h = Some [ts, a, b] \<and> parse_datetime ts = Inr dt \<and>
       m = (open_message dt a b)\<lparr>message := strip b @ concat (map (\<lambda>c. newline # strip c) cs)\<rparr>)"

section \<open>The loop body\<close>

lemma strip_Nil_iff: "strip s = [] \<longleftrightarrow> (\<forall>c\<in>set s. isspace c)"
proof
  assume "strip s = []"
  then have a: "\<forall>c\<in>set (dropWhile isspace s). isspace c"
    by (simp add: strip_def)
  have "dropWhile isspace s = []"
  proof (rule ccontr)
    assume n: "dropWhile isspace s \<noteq> []"
    then have "\<not> isspace (hd (dropWhile isspace s))" by (rule hd_dropWhile)
    moreover have "hd (dropWhile isspace s) \<in> set (dropWhile isspace s)" using n by simp
    ultimately show False using a by blast
  qed
  then show "\<forall>c\<in>set s. isspace c" by simp
next
  assume "\<forall>c\<in>set s. isspace c"
  then have d: "dropWhile isspace s = []" by simp
  show "strip s = []" unfolding strip_def d by simp
qed

lemma parse_line_blank: "strip line = [] \<Longrightarrow> parse_line line msgs cur = Inr (msgs, cur)"
  by (simp add: parse_line_def)

lemma parse_line_header:
  "strip line \<noteq> [] \<Longrightarrow> match_message line = Some [ts, a, b] \<Longrightarrow> parse_datetime ts = Inr dt
   \<Longrightarrow> parse_line line msgs cur = Inr (seal msgs cur, Some (open_message dt a b))"
  by (simp add: parse_line_def)

lemma parse_line_bad:
  "strip line \<noteq> [] \<Longrightarrow> match_message line = Some [ts, a, b] \<Longrightarrow> parse_datetime ts = Inl e
   \<Longrightarrow> parse_line line msgs cur = Inl e"
  by (simp add: parse_line_def)

lemma parse_line_cont:
  "strip line \<noteq> [] \<Longrightarrow> match_message line = None \<Longrightarrow>
   parse_line line msgs cur =
     Inr (msgs, map_option (\<lambda>m. m\<lparr>message := message m @ newline # strip line\<rparr>) cur)"
  by (cases cur) (simp_all add: parse_line_def)

lemma parse_line_Inr:
  assumes r: "parse_line line msgs cur = Inr (msgs', cur')"
  shows "(msgs' = msgs \<and> cur' = cur)
       \<or> (strip line \<noteq> [] \<and> (\<exists>ts a b dt. match_message line = Some [ts, a, b]
              \<and> parse_datetime ts = Inr dt \<and> msgs' = seal msgs cur
              \<and> cur' = Some (open_message dt a b)))
       \<or> (strip line \<noteq> [] \<and> msgs' = msgs
              \<and> (\<exists>m. cur = Some m \<and> cur' = Some (m\<lparr>message := message m @ newline # strip line\<rparr>)))"
proof (cases "strip line = []")
  case True
  with r show ?thesis by (simp add: parse_line_def)
next
  case nb: False
  have fallthrough: ?thesis
    if "parse_line line msgs cur =
          (case cur of Some m \<Rightarrow> Inr (msgs, Some (m\<lparr>message := message m @ newline # strip line\<rparr>))
                     | None \<Rightarrow> Inr (msgs, cur))"
    using that r nb by (cases cur) auto
  show ?thesis
  proof (cases "match_message line")
    case None
    with nb show ?thesis by (intro fallthrough) (simp add: parse_line_def)
  next
    case (Some g)
    show ?thesis
    proof (cases g)
      case Nil
      with Some nb show ?thesis by (intro fallthrough) (simp add: parse_line_def)
    next
      case c1: (Cons ts g1)
      show ?thesis
      proof (cases g1)
        case Nil
        with c1 Some nb r show ?thesis by (simp add: parse_line_def)
      next
        case c2: (Cons a g2)
        show ?thesis
        proof (cases g2)
          case Nil
          with c1 c2 Some nb r show ?thesis by (simp add: parse_line_def)
        next
          case c3: (Cons b g3)
          show ?thesis
          proof (cases g3)
            case Nil
            with c1 c2 c3 Some have m: "match_message line = Some [ts, a, b]" by simp
            show ?thesis
            proof (cases "parse_datetime ts")
              case (Inl e)
              with m nb r show ?thesis by (simp add: parse_line_bad)
            next
              case (Inr dt)
              with m nb r show ?thesis by (auto simp: parse_line_header)
            qed
          next
            case (Cons x g4)
            with c1 c2 c3 Some nb r show ?thesis by (simp add: parse_line_def)
          qed
        qed
      qed
    qed
  qed
qed

lemma parse_lines_bad_timestamp:
  "line \<in> set lines \<Longrightarrow> strip line \<noteq> [] \<Longrightarrow> match_message line = Some [ts, a, b]
   \<Longrightarrow> parse_datetime ts = Inl e \<Longrightarrow> \<exists>e'. parse_lines lines msgs cur = Inl e'"
proof (induction lines arbitrary: msgs cur)
  case Nil
  then show ?case by simp
next
  case (Cons l ls)
  show ?case
  proof (cases "parse_line l msgs cur")
    case (Inl e')
    then show ?thesis by simp
  next
    case (Inr st)
    obtain msgs' cur' where st: "st = (msgs', cur')" by (cases st)
    have "l \<noteq> line"
      using Inr Cons.prems(2,3,4) by (auto simp: parse_line_bad)
    with Cons.prems(1) have "line \<in> set ls" by simp
    from Cons.IH[OF this Cons.prems(2,3,4)] Inr st show ?thesis by simp
  qed
qed

lemma parse_lines_invariant:
  assumes r: "parse_lines lines msgs cur = Inr (msgs', cur')"
    and m0: "\<forall>m\<in>set msgs. P m" and c0: "\<forall>m\<in>set_option cur. P m"
    and opened: "\<And>line ts a b dt. line \<in> set lines \<Longrightarrow> match_message line = Some [ts, a, b]
                   \<Longrightarrow> parse_datetime ts = Inr dt \<Longrightarrow> P (open_message dt a b)"
    and cont: "\<And>m line. P m \<Longrightarrow> line \<in> set lines \<Longrightarrow> strip line \<noteq> []
                   \<Longrightarrow> P (m\<lparr>message := message m @ newline # strip line\<rparr>)"
  shows "(\<forall>m\<in>set msgs'. P m) \<and> (\<forall>m\<in>set_option cur'. P m)"
  using r m0 c0 opened cont
proof (induction lines arbitrary: msgs cur)
  case Nil
  from Nil.prems(1,2,3) show ?case by simp
next
  case (Cons l ls)
  obtain m1 c1 where step: "parse_line l msgs cur = Inr (m1, c1)"
    and rest: "parse_lines ls m1 c1 = Inr (msgs', cur')"
    using Cons.prems(1) by (cases "parse_line l msgs cur") auto
  have inv1: "(\<forall>m\<in>set m1. P m) \<and> (\<forall>m\<in>set_option c1. P m)"
  proof -
    from parse_line_Inr[OF step]
    consider (same) "m1 = msgs" "c1 = cur"
      | (hdr) ts a b dt where "match_message l = Some [ts, a, b]" "parse_datetime ts = Inr dt"
          "m1 = seal msgs cur" "c1 = Some (open_message dt a b)"
      | (cnt) m where "strip l \<noteq> []" "m1 = msgs" "cur = Some m"
          "c1 = Some (m\<lparr>message := message m @ newline # strip l\<rparr>)"
      by blast
    then show ?thesis
    proof cases
      case same
      with Cons.prems(2,3) show ?thesis by simp
    next
      case hdr
      have "P (open_message dt a b)"
        using Cons.prems(4)[of l ts a b dt] hdr(1,2) by simp
      moreover have "\<forall>m\<in>set (seal msgs cur). P m"
        using Cons.prems(2,3) by (cases cur) (simp_all add: seal_def)
      ultimately show ?thesis using hdr(3,4) by simp
    next
      case cnt
      have "P m" using Cons.prems(3) cnt(3) by simp
      then have "P (m\<lparr>message := message m @ newline # strip l\<rparr>)"
        using Cons.prems(5)[of m l] cnt(1) by simp
      with Cons.prems(2) cnt(2,4) show ?thesis by simp
    qed
  qed
  have o: "P (open_message dt a b)"
    if "line \<in> set ls" "match_message line = Some [ts, a, b]" "parse_datetime ts = Inr dt"
    for line ts a b dt
    using Cons.prems(4)[of line ts a b dt] that by simp
  have c: "P (m\<lparr>message := message m @ newline # strip line\<rparr>)"
    if "P m" "line \<in> set ls" "strip line \<noteq> []" for m line
    using Cons.prems(5)[of m line] that by simp
  from inv1 have i1: "\<forall>m\<in>set m1. P m" and i2: "\<forall>m\<in>set_option c1. P m" by blast+
  show ?case by (rule Cons.IH[OF rest i1 i2 o c])
qed

lemma parse_lines_no_header:
  "\<forall>line\<in>set lines. strip line \<noteq> [] \<longrightarrow> match_message line = None \<Longrightarrow>
   parse_lines lines [] None = Inr ([], None)"
proof (induction lines)
  case Nil
  show ?case by simp
next
  case (Cons l ls)
  have "parse_line l [] None = Inr ([], None)"
  proof (cases "strip l = []")
    case True
    then show ?thesis by (simp add: parse_line_blank)
  next
    case False
    with Cons.prems have "match_message l = None" by simp
    with False show ?thesis by (simp add: parse_line_cont)
  qed
  with Cons show ?case by simp
qed

section \<open>Shape of the lines that the patterns accept\<close>

lemma rmatch_Seq_nonempty: "rmatch (Seq a b) st \<noteq> [] \<Longrightarrow> rmatch a st \<noteq> []"
  by (cases "rmatch a st") simp_all

lemma rmatch_Grp_nonempty: "rmatch (Grp a) st \<noteq> [] \<Longrightarrow> rmatch a st \<noteq> []"
  by (cases st) simp

lemma rmatch_Cls_nonempty: "rmatch (Cls k) (g, s) \<noteq> [] \<Longrightarrow> s \<noteq> [] \<and> cls_mem k (hd s)"
  by (cases s) (auto split: if_splits)

lemma re_match_Some_nonempty: "re_match r s = Some g \<Longrightarrow> rmatch r ([], s) \<noteq> []"
  by (auto simp: re_match_def)

lemma unbracketed_shape:
  "rmatch (Seq (Grp (Seq (Seq (Cls k) x) y)) z) ([], s) \<noteq> [] \<Longrightarrow> s \<noteq> [] \<and> cls_mem k (hd s)"
  by (blast dest: rmatch_Seq_nonempty rmatch_Grp_nonempty rmatch_Cls_nonempty)

lemma android_first_char:
  assumes "re_match ANDROID_PATTERN line = Some g"
  shows "line \<noteq> [] \<and> hd line \<in> set ''0123456789''"
proof -
  have "\<exists>x y z. ANDROID_PATTERN = Seq (Grp (Seq (Seq (Cls (OneOf ''0123456789'')) x) y)) z"
    by (simp add: ANDROID_PATTERN_def seqs_def d12_def digit_def)
  then obtain x y z where "ANDROID_PATTERN = Seq (Grp (Seq (Seq (Cls (OneOf ''0123456789'')) x) y)) z"
    by blast
  with re_match_Some_nonempty[OF assms] unbracketed_shape[of "OneOf ''0123456789''" x y z line]
  show ?thesis by simp
qed

lemma alternative_first_char:
  assumes "re_match ALTERNATIVE_PATTERN line = Some g"
  shows "line \<noteq> [] \<and> hd line \<in> set ''0123456789''"
proof -
  have "\<exists>x y z. ALTERNATIVE_PATTERN = Seq (Grp (Seq (Seq (Cls (OneOf ''0123456789'')) x) y)) z"
    by (simp add: ALTERNATIVE_PATTERN_def seqs_def d12_def digit_def)
  then obtain x y z where "ALTERNATIVE_PATTERN = Seq (Grp (Seq (Seq (Cls (OneOf ''0123456789'')) x) y)) z"
    by blast
  with re_match_Some_nonempty[OF assms] unbracketed_shape[of "OneOf ''0123456789''" x y z line]
  show ?thesis by simp
qed

lemma ios_first_char:
  assumes "re_match IOS_PATTERN line = Some g"
  shows "line \<noteq> [] \<and> hd line = CHR ''[''"
proof -
  have "\<exists>z. IOS_PATTERN = Seq (Cls (OneOf ''['')) z"
    by (simp add: IOS_PATTERN_def seqs_def lit_def)
  then obtain z where "IOS_PATTERN = Seq (Cls (OneOf ''['')) z" by blast
  have "rmatch (Seq (Cls (OneOf ''['')) z) ([], line) \<noteq> []"
    using re_match_Some_nonempty[OF assms] unfolding \<open>IOS_PATTERN = Seq (Cls (OneOf ''['')) z\<close> .
  then have "rmatch (Cls (OneOf ''['')) ([], line) \<noteq> []"
    by (rule rmatch_Seq_nonempty)
  from rmatch_Cls_nonempty[OF this] show ?thesis by simp
qed

lemma header_start_not_space: "c \<in> set ''0123456789['' \<Longrightarrow> \<not> isspace c"
  by (auto simp: isspace_def whitespace_def)

lemma match_message_cases:
  assumes "match_message line = Some g"
  shows "re_match ANDROID_PATTERN line = Some g
       \<or> (re_match ANDROID_PATTERN line = None \<and> re_match IOS_PATTERN line = Some g)
       \<or> (re_match ANDROID_PATTERN line = None \<and> re_match IOS_PATTERN line = None
            \<and> re_match ALTERNATIVE_PATTERN line = Some g)"
  using assms by (auto simp: match_message_def patterns_def split: option.splits)

lemma match_message_nonblank:
  assumes "match_message line = Some g"
  shows "strip line \<noteq> []"
proof -
  from match_message_cases[OF assms]
  consider "re_match ANDROID_PATTERN line = Some g" | "re_match IOS_PATTERN line = Some g"
    | "re_match ALTERNATIVE_PATTERN line = Some g" by blast
  then have "line \<noteq> [] \<and> hd line \<in> set ''0123456789[''"
  proof cases
    case 1
    from android_first_char[OF this] show ?thesis by auto
  next
    case 2
    from ios_first_char[OF this] show ?thesis by auto
  next
    case 3
    from alternative_first_char[OF this] show ?thesis by auto
  qed
  then have "hd line \<in> set line" and "\<not> isspace (hd line)"
    using header_start_not_space by simp_all
  then show ?thesis unfolding strip_Nil_iff by blast
qed

lemma ios_excludes_unbracketed:
  assumes "re_match IOS_PATTERN line = Some g"
  shows "re_match ANDROID_PATTERN line = None" and "re_match ALTERNATIVE_PATTERN line = None"
proof -
  from ios_first_char[OF assms] have h: "hd line = CHR ''[''" by simp
  show "re_match ANDROID_PATTERN line = None"
  proof (cases "re_match ANDROID_PATTERN line")
    case (Some g')
    from android_first_char[OF this] h show ?thesis by simp
  qed simp
  show "re_match ALTERNATIVE_PATTERN line = None"
  proof (cases "re_match ALTERNATIVE_PATTERN line")
    case (Some g')
    from alternative_first_char[OF this] h show ?thesis by simp
  qed simp
qed

section \<open>Blocks of a header and its continuations\<close>

lemma split_on_no_sep: "sep \<notin> set x \<Longrightarrow> split_on sep x = [x]"
  by (induction x) auto

lemma split_on_append_sep: "sep \<notin> set x \<Longrightarrow> split_on sep (x @ sep # rest) = x # split_on sep rest"
  by (induction x) auto

lemma split_on_join_on:
  "ls \<noteq> [] \<Longrightarrow> \<forall>l\<in>set ls. sep \<notin> set l \<Longrightarrow> split_on sep (join_on sep ls) = ls"
proof (induction sep ls rule: join_on.induct)
  case (1 sep)
  then show ?case by simp
next
  case (2 sep x)
  then show ?case by (simp add: split_on_no_sep)
next
  case (3 sep x y ys)
  then show ?case by (simp add: split_on_append_sep)
qed

lemma parse_lines_append:
  "parse_lines (xs @ ys) msgs cur =
     (case parse_lines xs msgs cur of Inl e \<Rightarrow> Inl e | Inr (m, c) \<Rightarrow> parse_lines ys m c)"
proof (induction xs arbitrary: msgs cur)
  case Nil
  show ?case by simp
next
  case (Cons x xs)
  show ?case
  proof (cases "parse_line x msgs cur")
    case (Inl e)
    then show ?thesis by simp
  next
    case (Inr st)
    obtain m c where "st = (m, c)" by (cases st)
    with Inr Cons.IH[of m c] show ?thesis by simp
  qed
qed

lemma parse_lines_continuations:
  "\<forall>c\<in>set cs. strip c \<noteq> [] \<and> match_message c = None \<Longrightarrow>
   parse_lines cs msgs (Some m) =
     Inr (msgs, Some (m\<lparr>message := message m @ concat (map (\<lambda>c. newline # strip c) cs)\<rparr>))"
proof (induction cs arbitrary: m)
  case Nil
  show ?case by simp
next
  case (Cons c cs)
  then have "parse_line c msgs (Some m) = Inr (msgs, Some (m\<lparr>message := message m @ newline # strip c\<rparr>))"
    by (simp add: parse_line_cont)
  moreover have "\<forall>c\<in>set cs. strip c \<noteq> [] \<and> match_message c = None" using Cons.prems by simp
  ultimately show ?case using Cons.IH[of "m\<lparr>message := message m @ newline # strip c\<rparr>"] by simp
qed

lemma parse_lines_block:
  assumes h: "match_message h = Some [ts, a, b]" "parse_datetime ts = Inr dt"
    and cs: "\<forall>c\<in>set cs. strip c \<noteq> [] \<and> match_message c = None"
  shows "parse_lines (h # cs) msgs cur =
     Inr (seal msgs cur,
          Some ((open_message dt a b)\<lparr>message := strip b @ concat (map (\<lambda>c. newline # strip c) cs)\<rparr>))"
proof -
  have "strip h \<noteq> []" using h(1) by (rule match_message_nonblank)
  then have "parse_line h msgs cur = Inr (seal msgs cur, Some (open_message dt a b))"
    using h by (simp add: parse_line_header)
  moreover have "message (open_message dt a b) = strip b" by (simp add: open_message_def)
  ultimately show ?thesis
    using parse_lines_continuations[OF cs, of "seal msgs cur" "open_message dt a b"] by simp
qed

lemma parse_lines_blocks:
  assumes "\<forall>(h, cs)\<in>set bs. (\<exists>ts a b dt. match_message h = Some [ts, a, b] \<and> parse_datetime ts = Inr dt)
              \<and> (\<forall>c\<in>set cs. strip c \<noteq> [] \<and> match_message c = None)"
  shows "\<exists>ms m c. parse_lines (concat (map (\<lambda>(h, cs). h # cs) bs)) msgs cur = Inr (m, c)
              \<and> seal m c = seal msgs cur @ ms \<and> list_all2 block_message bs ms"
  using assms
proof (induction bs arbitrary: msgs cur)
  case Nil
  show ?case by simp
next
  case (Cons blk bs)
  obtain h cs where blk: "blk = (h, cs)" by (cases blk)
  from Cons.prems blk obtain ts a b dt where
    h: "match_message h = Some [ts, a, b]" "parse_datetime ts = Inr dt"
    and cs: "\<forall>c\<in>set cs. strip c \<noteq> [] \<and> match_message c = None"
    by auto
  define m1 where "m1 = (open_message dt a b)\<lparr>message := strip b @ concat (map (\<lambda>c. newline # strip c) cs)\<rparr>"
  have first: "parse_lines (h # cs) msgs cur = Inr (seal msgs cur, Some m1)"
    unfolding m1_def by (rule parse_lines_block[OF h cs])
  have rest: "\<forall>(h, cs)\<in>set bs. (\<exists>ts a b dt. match_message h = Some [ts, a, b] \<and> parse_datetime ts = Inr dt)
              \<and> (\<forall>c\<in>set cs. strip c \<noteq> [] \<and> match_message c = None)"
    using Cons.prems by simp
  from Cons.IH[OF rest, of "seal msgs cur" "Some m1"]
  obtain ms m c where r: "parse_lines (concat (map (\<lambda>(h, cs). h # cs) bs)) (seal msgs cur) (Some m1) = Inr (m, c)"
    and s: "seal m c = seal (seal msgs cur) (Some m1) @ ms" and l: "list_all2 block_message bs ms"
    by blast
  have "concat (map (\<lambda>(h, cs). h # cs) (blk # bs)) = (h # cs) @ concat (map (\<lambda>(h, cs). h # cs) bs)"
    using blk by simp
  then have "parse_lines (concat (map (\<lambda>(h, cs). h # cs) (blk # bs))) msgs cur = Inr (m, c)"
    using first r by (simp only: parse_lines_append sum.case prod.case)
  moreover have "seal m c = seal msgs cur @ (m1 # ms)" using s by (simp add: seal_def)
  moreover have "block_message blk m1"
    unfolding block_message_def blk m1_def using h by auto
  ultimately show ?case using l by (intro exI[of _ "m1 # ms"] exI[of _ m] exI[of _ c]) simp
qed

section \<open>Evaluation on concrete lines\<close>

lemma match_android_line:
  "match_message ''12/25/2023, 10:30 AM - Alice: Hey! Merry Christmas!''
     = Some [''12/25/2023, 10:30 AM'', ''Alice'', ''Hey! Merry Christmas!'']"
  by code_simp

lemma ios_line_bracketed:
  "re_match IOS_PATTERN ''[12/25/2023, 10:30:00 AM] Alice: Hey! Merry Christmas!''
     = Some [''12/25/2023, 10:30:00 AM'', ''Alice'', ''Hey! Merry Christmas!'']"
  by code_simp

lemma match_bad_line:
  "match_message ''99/99/9999, 99:99 - Alice: hi'' = Some [''99/99/9999, 99:99'', ''Alice'', ''hi'']"
  by code_simp

lemma match_hello_line:
  "match_message ''1/1/23, 10:30 - Alice: hello'' = Some [''1/1/23, 10:30'', ''Alice'', ''hello'']"
  by code_simp

lemma match_blank_body_line:
  "match_message ''1/1/23, 10:30 - Alice:   '' = Some [''1/1/23, 10:30'', ''Alice'', ''  '']"
  by code_simp

lemma match_padded_line:
  "match_message ''1/1/23, 10:30 - Alice:  hi'' = Some [''1/1/23, 10:30'', ''Alice'', '' hi'']"
  by code_simp

lemma match_photo_line: "match_message ''photo.jpg'' = None"
  by code_simp

lemma datetime_android_stamp:
  "parse_datetime ''12/25/2023, 10:30 AM''
     = Inr \<lparr>year = 2023, month = 12, day = 25, hour = 10, minute = 30, second = 0\<rparr>"
  by code_simp

lemma datetime_ios_stamp:
  "parse_datetime ''12/25/2023, 10:30:00 AM''
     = Inl (ValueError ''Could not parse datetime: 12/25/2023, 10:30:00 AM'')"
  by code_simp

lemma datetime_bad_stamp:
  "parse_datetime ''99/99/9999, 99:99'' = Inl (ValueError ''Could not parse datetime: 99/99/9999, 99:99'')"
  by code_simp

lemma datetime_short_stamp:
  "parse_datetime ''1/1/23, 10:30''
     = Inr \<lparr>year = 2023, month = 1, day = 1, hour = 10, minute = 30, second = 0\<rparr>"
  by code_simp

lemma parse_content_lines:
  "ls \<noteq> [] \<Longrightarrow> \<forall>l\<in>set ls. newline \<notin> set l \<Longrightarrow>
   parse_content (join_on newline ls) =
     (case parse_lines ls [] None of Inl e \<Rightarrow> Inl e | Inr (m, c) \<Rightarrow> Inr (seal m c))"
  by (simp add: parse_content_def split_on_join_on)

lemma parse_content_single_header:
  assumes "newline \<notin> set h" "match_message h = Some [ts, a, b]" "parse_datetime ts = Inr dt"
  shows "parse_content h = Inr [open_message dt a b]"
proof -
  have "strip h \<noteq> []" using assms(2) by (rule match_message_nonblank)
  then have "parse_line h [] None = Inr ([], Some (open_message dt a b))"
    using assms(2,3) by (simp add: parse_line_header seal_def)
  then show ?thesis
    using parse_content_lines[of "[h]"] assms(1) by (simp add: seal_def)
qed

lemma parse_content_single_bad:
  assumes "newline \<notin> set h" "match_message h = Some [ts, a, b]" "parse_datetime ts = Inl e"
  shows "parse_content h = Inl e"
proof -
  have "strip h \<noteq> []" using assms(2) by (rule match_message_nonblank)
  then have "parse_line h [] None = Inl e"
    using assms(2,3) by (simp add: parse_line_bad)
  then show ?thesis
    using parse_content_lines[of "[h]"] assms(1) by simp
qed

lemma strip_facts:
  "strip ''Alice'' = ''Alice''"
  "strip ''Hey! Merry Christmas!'' = ''Hey! Merry Christmas!''"
  "strip ''hello'' = ''hello''"
  "strip ''photo.jpg'' = ''photo.jpg''"
  "strip ''  '' = []"
  "strip '' hi'' = ''hi''"
  by code_simp+

lemma classify_greeting:
  "is_media_message ''Hey! Merry Christmas!'' = False"
  "is_system_message ''Alice'' ''Hey! Merry Christmas!'' = False"
  by code_simp+

lemma classify_hello:
  "is_media_message ''hello'' = False"
  "is_system_message ''Alice'' ''hello'' = False"
  by code_simp+

lemma classify_hello_photo:
  "is_media_message (''hello'' @ newline # ''photo.jpg'') = True"
  by code_simp

lemma classify_blank:
  "is_media_message ''  '' = False"
  "is_system_message ''Alice'' ''  '' = False"
  "is_media_message '' hi'' = False"
  "is_system_message ''Alice'' '' hi'' = False"
  by code_simp+

section \<open>Auxiliary facts\<close>

lemma list3: "length g = 3 \<Longrightarrow> \<exists>x y z. g = [x, y, z]"
  by (cases g; cases "tl g"; cases "tl (tl g)") auto

lemma is_headerD:
  assumes "is_header line"
  shows "\<exists>ts a b dt. match_message line = Some [ts, a, b] \<and> parse_datetime ts = Inr dt \<and> header_body line = b"
proof -
  from assms obtain g where g: "match_message line = Some g" "length g = 3" "\<not> isl (parse_datetime (g ! 0))"
    by (auto simp: is_header_def split: option.splits)
  from list3[OF g(2)] obtain ts a b where l: "g = [ts, a, b]" by blast
  from g(3) l obtain dt where "parse_datetime ts = Inr dt" by (cases "parse_datetime ts") auto
  with g(1) l show ?thesis by (auto simp: header_body_def)
qed

lemma is_headerI:
  "match_message line = Some [ts, a, b] \<Longrightarrow> parse_datetime ts = Inr dt \<Longrightarrow> is_header line"
  by (simp add: is_header_def)

lemma header_body_eq: "match_message line = Some [ts, a, b] \<Longrightarrow> header_body line = b"
  by (simp add: header_body_def)

lemma set_seal: "set (seal msgs cur) = set msgs \<union> set_option cur"
  by (cases cur) (simp_all add: seal_def)

lemma parse_content_Inr:
  "parse_content content = Inr ms \<Longrightarrow>
   \<exists>msgs cur. parse_lines (split_on newline content) [] None = Inr (msgs, cur) \<and> ms = seal msgs cur"
  by (auto simp: parse_content_def split: sum.splits)

lemma strip_nonspace: "strip s \<noteq> [] \<Longrightarrow> \<exists>c\<in>set (strip s). \<not> isspace c"
proof -
  assume n: "strip s \<noteq> []"
  let ?t = "dropWhile isspace (rev (dropWhile isspace s))"
  from n have t: "?t \<noteq> []" by (simp add: strip_def)
  then have "\<not> isspace (hd ?t)" by (rule hd_dropWhile)
  moreover have "hd ?t \<in> set (strip s)" using t by (simp add: strip_def)
  ultimately show ?thesis by blast
qed

lemma join_on_Cons: "join_on sep (x # xs) = x @ concat (map (\<lambda>c. sep # c) xs)"
  by (induction sep "x # xs" arbitrary: x xs rule: join_on.induct) simp_all

lemma match_ios_line:
  "match_message ''[12/25/2023, 10:30:00 AM] Alice: Hey! Merry Christmas!''
     = Some [''12/25/2023, 10:30:00 AM'', ''Alice'', ''Hey! Merry Christmas!'']"
  using ios_line_bracketed ios_excludes_unbracketed[OF ios_line_bracketed]
  by (simp add: match_message_def patterns_def)

lemma match_message_blank: "strip line = [] \<Longrightarrow> match_message line = None"
  using match_message_nonblank[of line] by (cases "match_message line") auto

section \<open>Groups of a match and messages in order\<close>

lemma rmatch_groups:
  "uniform r \<Longrightarrow> (g', s') \<in> set (rmatch r (g, s)) \<Longrightarrow> length g' = length g + groups r"
proof (induction r arbitrary: g s g' s')
  case Eps
  then show ?case by simp
next
  case (Cls k)
  then show ?case by (cases s) (auto split: if_splits)
next
  case (Seq a b)
  from Seq.prems(2) obtain g1 s1 where 1: "(g1, s1) \<in> set (rmatch a (g, s))"
    and 2: "(g', s') \<in> set (rmatch b (g1, s1))" by auto
  from Seq.IH(1)[OF _ 1] Seq.IH(2)[OF _ 2] Seq.prems(1) show ?case by simp
next
  case (Alt a b)
  from Alt.prems(2) consider "(g', s') \<in> set (rmatch a (g, s))" | "(g', s') \<in> set (rmatch b (g, s))"
    by auto
  then show ?case
  proof cases
    case 1
    from Alt.IH(1)[OF _ 1] Alt.prems(1) show ?thesis by simp
  next
    case 2
    from Alt.IH(2)[OF _ 2] Alt.prems(1) show ?thesis by simp
  qed
next
  case (Plus k)
  then show ?case by auto
next
  case (Grp a)
  from Grp.prems(2) obtain g1 where 1: "(g1, s') \<in> set (rmatch a (g, s))"
    and 2: "g' = g1 @ [take (length s - length s') s]" by auto
  from Grp.IH[OF _ 1] Grp.prems(1) 2 show ?case by simp
qed

lemma re_match_groups: "uniform r \<Longrightarrow> re_match r s = Some g \<Longrightarrow> length g = groups r"
proof -
  assume u: "uniform r" and m: "re_match r s = Some g"
  from m obtain s' rest where "rmatch r ([], s) = (g, s') # rest"
    by (auto simp: re_match_def split: list.splits)
  then have "(g, s') \<in> set (rmatch r ([], s))" by simp
  from rmatch_groups[OF u this] show ?thesis by simp
qed

lemma patterns_three_groups:
  "uniform ANDROID_PATTERN \<and> groups ANDROID_PATTERN = 3"
  "uniform IOS_PATTERN \<and> groups IOS_PATTERN = 3"
  "uniform ALTERNATIVE_PATTERN \<and> groups ALTERNATIVE_PATTERN = 3"
  by (simp_all add: ANDROID_PATTERN_def IOS_PATTERN_def ALTERNATIVE_PATTERN_def seqs_def lit_def
        d12_def d2_def d24_def digit_def space_def opt_def)

lemma match_message_three:
  assumes "match_message line = Some g"
  shows "\<exists>ts a b. g = [ts, a, b]"
proof -
  from match_message_cases[OF assms]
  consider "re_match ANDROID_PATTERN line = Some g" | "re_match IOS_PATTERN line = Some g"
    | "re_match ALTERNATIVE_PATTERN line = Some g" by blast
  then have "length g = 3"
  proof cases
    case 1
    with re_match_groups[of ANDROID_PATTERN line g] patterns_three_groups(1) show ?thesis by simp
  next
    case 2
    with re_match_groups[of IOS_PATTERN line g] patterns_three_groups(2) show ?thesis by simp
  next
    case 3
    with re_match_groups[of ALTERNATIVE_PATTERN line g] patterns_three_groups(3) show ?thesis by simp
  qed
  then show ?thesis by (rule list3)
qed

lemma parse_datetime_Inl_msg:
  "parse_datetime ts = Inl e \<Longrightarrow> e = ValueError (''Could not parse datetime: '' @ ts)"
  by (auto simp: parse_datetime_def split: option.splits)

lemma parse_line_Inl_header:
  assumes r: "parse_line line msgs cur = Inl e"
  shows "\<exists>ts a b. match_message line = Some [ts, a, b] \<and> parse_datetime ts = Inl e"
proof (cases "strip line = []")
  case True
  with r show ?thesis by (simp add: parse_line_blank)
next
  case nb: False
  show ?thesis
  proof (cases "match_message line")
    case None
    with nb r show ?thesis by (simp add: parse_line_cont)
  next
    case (Some g)
    from match_message_three[OF Some] obtain ts a b where g: "g = [ts, a, b]" by blast
    show ?thesis
    proof (cases "parse_datetime ts")
      case (Inl e')
      with Some g nb r have "e = e'" by (simp add: parse_line_bad)
      with Inl Some g show ?thesis by simp
    next
      case (Inr dt)
      with Some g nb r show ?thesis by (simp add: parse_line_header)
    qed
  qed
qed

lemma parse_lines_Inl_header:
  "parse_lines lines msgs cur = Inl e \<Longrightarrow>
   \<exists>line ts a b. line \<in> set lines \<and> match_message line = Some [ts, a, b]
      \<and> parse_datetime ts = Inl e"
proof (induction lines arbitrary: msgs cur)
  case Nil
  then show ?case by simp
next
  case (Cons l ls)
  show ?case
  proof (cases "parse_line l msgs cur")
    case (Inl e')
    with Cons.prems have "e = e'" by simp
    with Inl parse_line_Inl_header[of l msgs cur e] show ?thesis by auto
  next
    case (Inr st)
    obtain m c where "st = (m, c)" by (cases st)
    with Inr Cons.prems have "parse_lines ls m c = Inl e" by simp
    from Cons.IH[OF this] show ?thesis by auto
  qed
qed

lemma header_author_eq: "match_message line = Some [ts, a, b] \<Longrightarrow> header_author line = a"
  by (simp add: header_author_def)

lemma parse_line_not_header:
  assumes r: "parse_line line msgs cur = Inr (msgs', cur')" and n: "\<not> is_header line"
  shows "msgs' = msgs \<and> (cur' = cur
           \<or> (strip line \<noteq> [] \<and> (\<exists>m. cur = Some m
                 \<and> cur' = Some (m\<lparr>message := message m @ newline # strip line\<rparr>))))"
  using parse_line_Inr[OF r] n by (auto dest: is_headerI)

lemma parse_line_is_header:
  assumes r: "parse_line line msgs cur = Inr (msgs', cur')" and h: "is_header line"
  shows "\<exists>ts a b dt. match_message line = Some [ts, a, b] \<and> parse_datetime ts = Inr dt
           \<and> msgs' = seal msgs cur \<and> cur' = Some (open_message dt a b)"
proof -
  from is_headerD[OF h] obtain ts a b dt
    where m: "match_message line = Some [ts, a, b]" and d: "parse_datetime ts = Inr dt" by blast
  have "strip line \<noteq> []" using m by (rule match_message_nonblank)
  from parse_line_header[OF this m d, of msgs cur] r m d show ?thesis by simp
qed

lemma opened_by_open_message:
  "match_message line = Some [ts, a, b] \<Longrightarrow> opened_by line (open_message dt a b)"
  by (simp add: opened_by_def open_message_def header_author_eq header_body_eq)

lemma opened_by_continued:
  "opened_by h m \<Longrightarrow> opened_by h (m\<lparr>message := message m @ rest\<rparr>)"
  by (simp add: opened_by_def)

lemma parse_lines_opened_by:
  assumes "parse_lines lines msgs cur = Inr (msgs', cur')"
    and "list_all2 opened_by hs (seal msgs cur)"
  shows "list_all2 opened_by (hs @ filter is_header lines) (seal msgs' cur')"
  using assms
proof (induction lines arbitrary: msgs cur hs)
  case Nil
  then show ?case by simp
next
  case (Cons l ls)
  obtain m1 c1 where step: "parse_line l msgs cur = Inr (m1, c1)"
    and rest: "parse_lines ls m1 c1 = Inr (msgs', cur')"
    using Cons.prems(1) by (cases "parse_line l msgs cur") auto
  show ?case
  proof (cases "is_header l")
    case True
    from parse_line_is_header[OF step True] obtain ts a b dt
      where m: "match_message l = Some [ts, a, b]"
        and s: "m1 = seal msgs cur" "c1 = Some (open_message dt a b)" by blast
    have "list_all2 opened_by (hs @ [l]) (seal m1 c1)"
      using Cons.prems(2) opened_by_open_message[OF m, of dt] s
      by (simp add: seal_def list_all2_appendI)
    from Cons.IH[OF rest this] True show ?thesis by simp
  next
    case False
    from parse_line_not_header[OF step False]
    consider (same) "m1 = msgs" "c1 = cur"
      | (cnt) m where "m1 = msgs" "cur = Some m"
          "c1 = Some (m\<lparr>message := message m @ newline # strip l\<rparr>)" by blast
    then have "list_all2 opened_by hs (seal m1 c1)"
    proof cases
      case same
      with Cons.prems(2) show ?thesis by simp
    next
      case cnt
      from Cons.prems(2) cnt(2) have "list_all2 opened_by hs (msgs @ [m])" by (simp add: seal_def)
      then obtain hs1 h where hs: "hs = hs1 @ [h]" and a: "list_all2 opened_by hs1 msgs"
        and b: "opened_by h m"
        by (auto simp: list_all2_append2 list_all2_Cons2)
      from b have "opened_by h (m\<lparr>message := message m @ newline # strip l\<rparr>)"
        by (rule opened_by_continued)
      with a hs cnt(1,3) show ?thesis by (simp add: seal_def list_all2_appendI)
    qed
    from Cons.IH[OF rest this] False show ?thesis by simp
  qed
qed

lemma parse_lines_body_invariant:
  assumes r: "parse_lines lines msgs cur = Inr (msgs', cur')"
    and m0: "\<forall>m\<in>set msgs. message m = [] \<or> (\<exists>c\<in>set (message m). \<not> isspace c)"
    and c0: "\<forall>m\<in>set_option cur. message m = [] \<or> (\<exists>c\<in>set (message m). \<not> isspace c)"
  shows "\<forall>m\<in>set (seal msgs' cur'). message m = [] \<or> (\<exists>c\<in>set (message m). \<not> isspace c)"
proof -
  define P where "P = (\<lambda>m :: Message. message m = [] \<or> (\<exists>c\<in>set (message m). \<not> isspace c))"
  have opened: "P (open_message dt a b)" for dt a b
    using strip_nonspace[of b] by (auto simp: P_def open_message_def)
  have cont: "P (m\<lparr>message := message m @ newline # strip line\<rparr>)"
    if "strip line \<noteq> []" for m line
    using strip_nonspace[OF that] by (auto simp: P_def)
  have "(\<forall>m\<in>set msgs'. P m) \<and> (\<forall>m\<in>set_option cur'. P m)"
  proof (rule parse_lines_invariant[where P = P, OF r])
    show "\<forall>m\<in>set msgs. P m" using m0 by (simp add: P_def)
    show "\<forall>m\<in>set_option cur. P m" using c0 by (simp add: P_def)
  qed (simp_all add: opened cont)
  then show ?thesis by (auto simp: set_seal P_def)
qed

section \<open>Single lines and small chats\<close>

lemma parse_content_of_lines:
  "ls \<noteq> [] \<Longrightarrow> \<forall>l\<in>set ls. newline \<notin> set l \<Longrightarrow> parse_lines ls [] None = Inr (m, c)
   \<Longrightarrow> parse_content (join_on newline ls) = Inr (seal m c)"
  by (simp add: parse_content_lines)

lemma parse_line_android:
  "parse_line ''12/25/2023, 10:30 AM - Alice: Hey! Merry Christmas!'' msgs cur
     = Inr (seal msgs cur,
            Some \<lparr>datetime = \<lparr>year = 2023, month = 12, day = 25, hour = 10, minute = 30, second = 0\<rparr>,
                  author = ''Alice'', message = ''Hey! Merry Christmas!'',
                  is_media = False, is_system = False\<rparr>)"
  using parse_line_header[OF match_message_nonblank[OF match_android_line] match_android_line
      datetime_android_stamp, of msgs cur]
  by (simp add: open_message_def strip_facts classify_greeting)

lemma parse_line_hello:
  "parse_line ''1/1/23, 10:30 - Alice: hello'' msgs cur
     = Inr (seal msgs cur,
            Some \<lparr>datetime = \<lparr>year = 2023, month = 1, day = 1, hour = 10, minute = 30, second = 0\<rparr>,
                  author = ''Alice'', message = ''hello'', is_media = False, is_system = False\<rparr>)"
  using parse_line_header[OF match_message_nonblank[OF match_hello_line] match_hello_line
      datetime_short_stamp, of msgs cur]
  by (simp add: open_message_def strip_facts classify_hello)

lemma parse_line_photo:
  "parse_line ''photo.jpg'' msgs (Some m)
     = Inr (msgs, Some (m\<lparr>message := message m @ newline # ''photo.jpg''\<rparr>))"
  using parse_line_cont[OF _ match_photo_line, of msgs "Some m"] by (simp add: strip_facts)

lemma parse_content_hello_photo:
  "parse_content (join_on newline [''1/1/23, 10:30 - Alice: hello'', ''photo.jpg''])
     = Inr [\<lparr>datetime = \<lparr>year = 2023, month = 1, day = 1, hour = 10, minute = 30, second = 0\<rparr>,
             author = ''Alice'', message = ''hello'' @ newline # ''photo.jpg'',
             is_media = False, is_system = False\<rparr>]"
proof -
  have "parse_lines [''1/1/23, 10:30 - Alice: hello'', ''photo.jpg''] [] None
     = Inr ([], Some \<lparr>datetime = \<lparr>year = 2023, month = 1, day = 1, hour = 10, minute = 30, second = 0\<rparr>,
             author = ''Alice'', message = ''hello'' @ newline # ''photo.jpg'',
             is_media = False, is_system = False\<rparr>)"
    by (simp add: parse_line_hello parse_line_photo seal_def)
  from parse_content_of_lines[OF _ _ this] show ?thesis by (simp add: seal_def newline_def)
qed

lemma parse_content_padded:
  "parse_content ''1/1/23, 10:30 - Alice:  hi''
     = Inr [\<lparr>datetime = \<lparr>year = 2023, month = 1, day = 1, hour = 10, minute = 30, second = 0\<rparr>,
             author = ''Alice'', message = ''hi'', is_media = False, is_system = False\<rparr>]"
  using parse_content_single_header[OF _ match_padded_line datetime_short_stamp]
  by (simp add: newline_def open_message_def strip_facts classify_blank)

lemma parse_content_two_lines:
  "parse_content (join_on newline [''12/25/2023, 10:30 AM - Alice: Hey! Merry Christmas!'',
                                   ''1/1/23, 10:30 - Alice: hello''])
     = Inr [\<lparr>datetime = \<lparr>year = 2023, month = 12, day = 25, hour = 10, minute = 30, second = 0\<rparr>,
             author = ''Alice'', message = ''Hey! Merry Christmas!'',
             is_media = False, is_system = False\<rparr>,
            \<lparr>datetime = \<lparr>year = 2023, month = 1, day = 1, hour = 10, minute = 30, second = 0\<rparr>,
             author = ''Alice'', message = ''hello'', is_media = False, is_system = False\<rparr>]"
proof -
  have "parse_lines [''12/25/2023, 10:30 AM - Alice: Hey! Merry Christmas!'',
                     ''1/1/23, 10:30 - Alice: hello''] [] None
     = Inr ([\<lparr>datetime = \<lparr>year = 2023, month = 12, day = 25, hour = 10, minute = 30, second = 0\<rparr>,
             author = ''Alice'', message = ''Hey! Merry Christmas!'',
             is_media = False, is_system = False\<rparr>],
            Some \<lparr>datetime = \<lparr>year = 2023, month = 1, day = 1, hour = 10, minute = 30, second = 0\<rparr>,
             author = ''Alice'', message = ''hello'', is_media = False, is_system = False\<rparr>)"
    by (simp add: parse_line_android parse_line_hello seal_def)
  from parse_content_of_lines[OF _ _ this] show ?thesis by (simp add: seal_def newline_def)
qed

lemma load_chat_two_lines:
  "load_chat (sort_key (\<lambda>m. dt_key (datetime m)))
       [''chat.txt'' \<mapsto> join_on newline [''12/25/2023, 10:30 AM - Alice: Hey! Merry Christmas!'',
                                                   ''1/1/23, 10:30 - Alice: hello'']]
       (init (Some ''chat.txt'')) None
   = Inr ([\<lparr>datetime = \<lparr>year = 2023, month = 1, day = 1, hour = 10, minute = 30, second = 0\<rparr>,
            author = ''Alice'', message = ''hello'', is_media = False, is_system = False\<rparr>,
           \<lparr>datetime = \<lparr>year = 2023, month = 12, day = 25, hour = 10, minute = 30, second = 0\<rparr>,
            author = ''Alice'', message = ''Hey! Merry Christmas!'',
            is_media = False, is_system = False\<rparr>],
          \<lparr>file_path = Some ''chat.txt'',
           messages =
            [\<lparr>datetime = \<lparr>year = 2023, month = 12, day = 25, hour = 10, minute = 30, second = 0\<rparr>,
              author = ''Alice'', message = ''Hey! Merry Christmas!'',
              is_media = False, is_system = False\<rparr>,
             \<lparr>datetime = \<lparr>year = 2023, month = 1, day = 1, hour = 10, minute = 30, second = 0\<rparr>,
              author = ''Alice'', message = ''hello'', is_media = False, is_system = False\<rparr>],
           df = Some
            [\<lparr>datetime = \<lparr>year = 2023, month = 1, day = 1, hour = 10, minute = 30, second = 0\<rparr>,
              author = ''Alice'', message = ''hello'', is_media = False, is_system = False\<rparr>,
             \<lparr>datetime = \<lparr>year = 2023, month = 12, day = 25, hour = 10, minute = 30, second = 0\<rparr>,
              author = ''Alice'', message = ''Hey! Merry Christmas!'',
              is_media = False, is_system = False\<rparr>]\<rparr>)"
  using parse_content_two_lines
  by (simp add: load_chat_def chosen_path_def init_def dt_key_def Let_def)

lemma pattern_distinct:
  "ANDROID_PATTERN \<noteq> IOS_PATTERN" "ANDROID_PATTERN \<noteq> ALTERNATIVE_PATTERN"
  "IOS_PATTERN \<noteq> ALTERNATIVE_PATTERN"
  by (simp_all add: ANDROID_PATTERN_def IOS_PATTERN_def ALTERNATIVE_PATTERN_def seqs_def lit_def
        d12_def d2_def d24_def digit_def space_def opt_def)

lemma block_message_body:
  "block_message (h, cs) m \<Longrightarrow> message m = join_on newline (strip (header_body h) # map strip cs)"
  by (auto simp: block_message_def header_body_eq join_on_Cons comp_def)

lemma list_all2_block_bodies:
  "list_all2 block_message bs ms \<Longrightarrow>
   map message ms = map (\<lambda>(h, cs). join_on newline (strip (header_body h) # map strip cs)) bs"
proof (induction rule: list_all2_induct)
  case Nil
  show ?case by simp
next
  case (Cons blk bs m ms)
  obtain h cs where "blk = (h, cs)" by (cases blk)
  with Cons block_message_body[of h cs m] show ?case by simp
qed

lemma parse_content_empty: "parse_content [] = Inr []"
  by (simp add: parse_content_def parse_line_blank strip_def seal_def)

lemma is_header_hello: "is_header ''1/1/23, 10:30 - Alice: hello''"
  by (rule is_headerI[OF match_hello_line datetime_short_stamp])

lemma is_header_photo: "\<not> is_header ''photo.jpg''"
  by (simp add: is_header_def match_photo_line)

lemma sort_key_sorts_by_datetime: "sorts_by_datetime (sort_key (\<lambda>m. dt_key (datetime m)))"
  by (simp add: sorts_by_datetime_def)

lemma parse_line_blank_body:
  "parse_line ''1/1/23, 10:30 - Alice:   '' msgs cur
     = Inr (seal msgs cur,
            Some \<lparr>datetime = \<lparr>year = 2023, month = 1, day = 1, hour = 10, minute = 30, second = 0\<rparr>,
                  author = ''Alice'', message = [], is_media = False, is_system = False\<rparr>)"
  using parse_line_header[OF match_message_nonblank[OF match_blank_body_line] match_blank_body_line
      datetime_short_stamp, of msgs cur]
  by (simp add: open_message_def strip_facts classify_blank)

lemma parse_content_blank_then_hello:
  "parse_content (join_on newline [''1/1/23, 10:30 - Alice:   '', ''1/1/23, 10:30 - Alice: hello''])
     = Inr [\<lparr>datetime = \<lparr>year = 2023, month = 1, day = 1, hour = 10, minute = 30, second = 0\<rparr>,
             author = ''Alice'', message = [], is_media = False, is_system = False\<rparr>,
            \<lparr>datetime = \<lparr>year = 2023, month = 1, day = 1, hour = 10, minute = 30, second = 0\<rparr>,
             author = ''Alice'', message = ''hello'', is_media = False, is_system = False\<rparr>]"
proof -
  have "parse_lines [''1/1/23, 10:30 - Alice:   '', ''1/1/23, 10:30 - Alice: hello''] [] None
     = Inr ([\<lparr>datetime = \<lparr>year = 2023, month = 1, day = 1, hour = 10, minute = 30, second = 0\<rparr>,
             author = ''Alice'', message = [], is_media = False, is_system = False\<rparr>],
            Some \<lparr>datetime = \<lparr>year = 2023, month = 1, day = 1, hour = 10, minute = 30, second = 0\<rparr>,
             author = ''Alice'', message = ''hello'', is_media = False, is_system = False\<rparr>)"
    by (simp add: parse_line_blank_body parse_line_hello seal_def)
  from parse_content_of_lines[OF _ _ this] show ?thesis by (simp add: seal_def newline_def)
qed

section \<open>Flags of a message\<close>

text \<open>
  Claim C1, amended. The flags of a message are not computed on its sealed body. They are
  computed once, when the header line opens the message, on the body that this header line
  captures; continuation lines are appended to the body afterwards and never change the
  flags. The messages of a parsed chat are, in order, the messages opened by the header
  lines of the input, in order: the flags of each message are the two heuristics applied to
  the groups of the header line that opened it, its author is the stripped author of that
  line, and its body starts with the stripped body of that line.
\<close>

theorem flags_from_header_line:
  assumes "parse_content content = Inr ms"
  shows "list_all2 opened_by (filter is_header (split_on newline content)) ms"
proof -
  from parse_content_Inr[OF assms] obtain msgs cur
    where r: "parse_lines (split_on newline content) [] None = Inr (msgs, cur)"
      and ms: "ms = seal msgs cur" by blast
  from parse_lines_opened_by[OF r, of "[]"] ms show ?thesis by (simp add: seal_def)
qed

theorem flags_from_header_line_witness:
  "filter is_header (split_on newline
       (join_on newline [''1/1/23, 10:30 - Alice: hello'', ''photo.jpg'']))
     = [''1/1/23, 10:30 - Alice: hello'']
   \<and> list_all2 opened_by
        (filter is_header (split_on newline
           (join_on newline [''1/1/23, 10:30 - Alice: hello'', ''photo.jpg''])))
        [\<lparr>datetime = \<lparr>year = 2023, month = 1, day = 1, hour = 10, minute = 30, second = 0\<rparr>,
          author = ''Alice'', message = ''hello'' @ newline # ''photo.jpg'',
          is_media = False, is_system = False\<rparr>]"
proof (rule conjI)
  have "split_on newline (join_on newline [''1/1/23, 10:30 - Alice: hello'', ''photo.jpg''])
          = [''1/1/23, 10:30 - Alice: hello'', ''photo.jpg'']"
    by (rule split_on_join_on) (simp_all add: newline_def)
  then show "filter is_header (split_on newline
       (join_on newline [''1/1/23, 10:30 - Alice: hello'', ''photo.jpg'']))
     = [''1/1/23, 10:30 - Alice: hello'']"
    by (simp only: filter.simps is_header_hello is_header_photo if_True if_False)
  show "list_all2 opened_by
        (filter is_header (split_on newline
           (join_on newline [''1/1/23, 10:30 - Alice: hello'', ''photo.jpg''])))
        [\<lparr>datetime = \<lparr>year = 2023, month = 1, day = 1, hour = 10, minute = 30, second = 0\<rparr>,
          author = ''Alice'', message = ''hello'' @ newline # ''photo.jpg'',
          is_media = False, is_system = False\<rparr>]"
    by (rule flags_from_header_line[OF parse_content_hello_photo])
qed

text \<open>
  The chat of the header line \<open>1/1/23, 10:30 - Alice: hello\<close> followed by the
  continuation line \<open>photo.jpg\<close> gives one message whose sealed body names a picture
  file, which the media heuristic accepts, while the media flag of the message is false.
\<close>

theorem flags_not_from_sealed_body:
  "parse_content (join_on newline [''1/1/23, 10:30 - Alice: hello'', ''photo.jpg''])
     = Inr [\<lparr>datetime = \<lparr>year = 2023, month = 1, day = 1, hour = 10, minute = 30, second = 0\<rparr>,
             author = ''Alice'', message = ''hello'' @ newline # ''photo.jpg'',
             is_media = False, is_system = False\<rparr>]
   \<and> is_media_message (''hello'' @ newline # ''photo.jpg'') = True"
  using parse_content_hello_photo classify_hello_photo by simp

section \<open>The two sample lines\<close>

text \<open>
  Claim C2. The line \<open>[12/25/2023, 10:30:00 AM] Alice: Hey! Merry Christmas!\<close> is
  accepted by the bracketed pattern, which captures a timestamp with seconds. The two
  formats of \<open>_parse_datetime\<close> that read seconds are day-first, and 25 is not a month,
  so no format accepts the timestamp and parsing the line raises \<open>ValueError\<close> instead
  of giving a message.
\<close>

theorem ios_seconds_line_rejected:
  "parse_content ''[12/25/2023, 10:30:00 AM] Alice: Hey! Merry Christmas!''
     = Inl (ValueError ''Could not parse datetime: 12/25/2023, 10:30:00 AM'')"
  using parse_content_single_bad[OF _ match_ios_line datetime_ios_stamp]
  by (simp add: newline_def)

text \<open>
  Claim C7. The line \<open>12/25/2023, 10:30 AM - Alice: Hey! Merry Christmas!\<close> gives exactly
  one message, of author \<open>Alice\<close> and body \<open>Hey! Merry Christmas!\<close>, which is neither a
  media nor a system message.
\<close>

theorem android_line_parsed:
  "parse_content ''12/25/2023, 10:30 AM - Alice: Hey! Merry Christmas!''
     = Inr [\<lparr>datetime = \<lparr>year = 2023, month = 12, day = 25, hour = 10, minute = 30, second = 0\<rparr>,
             author = ''Alice'', message = ''Hey! Merry Christmas!'',
             is_media = False, is_system = False\<rparr>]"
  using parse_content_single_header[OF _ match_android_line datetime_android_stamp]
  by (simp add: newline_def open_message_def strip_facts classify_greeting)

section \<open>Loading a chat\<close>

text \<open>
  Claim C3. When some line of the file is a header line whose timestamp no format accepts,
  \<open>load_chat\<close> returns no table: it raises the error of \<open>_parse_datetime\<close> for a header
  line of the file whose timestamp no format accepts, a \<open>ValueError\<close> of message
  \<open>Could not parse datetime:\<close> followed by that timestamp. This holds whatever the other
  lines are, also when messages were assembled before the line was met, and for the path
  given as argument as for the path given to the constructor.
\<close>

theorem unparsable_timestamp_aborts_load:
  assumes "chosen_path self fp = Some p" and "p \<noteq> []" and "fs p = Some content"
    and "line \<in> set (split_on newline content)"
    and "match_message line = Some [ts, a, b]" and "parse_datetime ts = Inl e"
  shows "\<exists>bad ts' a' b'. bad \<in> set (split_on newline content)
           \<and> match_message bad = Some [ts', a', b']
           \<and> parse_datetime ts' = Inl (ValueError (''Could not parse datetime: '' @ ts'))
           \<and> load_chat srt fs self fp = Inl (ValueError (''Could not parse datetime: '' @ ts'))"
proof -
  have "strip line \<noteq> []" using assms(5) by (rule match_message_nonblank)
  from parse_lines_bad_timestamp[OF assms(4) this assms(5,6)]
  obtain e' where e': "parse_lines (split_on newline content) [] None = Inl e'" by blast
  from parse_lines_Inl_header[OF e'] obtain bad ts' a' b'
    where bad: "bad \<in> set (split_on newline content)" "match_message bad = Some [ts', a', b']"
      and d: "parse_datetime ts' = Inl e'" by blast
  from parse_datetime_Inl_msg[OF d]
  have msg: "e' = ValueError (''Could not parse datetime: '' @ ts')" .
  from e' have "parse_content content = Inl e'" by (simp add: parse_content_def)
  with assms(1,2,3) have "load_chat srt fs self fp = Inl e'" by (simp add: load_chat_def)
  with bad d msg show ?thesis by blast
qed

theorem unparsable_timestamp_aborts_load_witness:
  "load_chat (sort_key (\<lambda>m. dt_key (datetime m)))
      [''chat.txt'' \<mapsto> join_on newline [''1/1/23, 10:30 - Alice: hello'',
                                             ''99/99/9999, 99:99 - Alice: hi'']]
      (init (Some ''chat.txt'')) None
     = Inl (ValueError ''Could not parse datetime: 99/99/9999, 99:99'')"
proof -
  let ?C = "join_on newline [''1/1/23, 10:30 - Alice: hello'', ''99/99/9999, 99:99 - Alice: hi'']"
  have sp: "split_on newline ?C
              = [''1/1/23, 10:30 - Alice: hello'', ''99/99/9999, 99:99 - Alice: hi'']"
    by (rule split_on_join_on) (simp_all add: newline_def)
  have mem: "''99/99/9999, 99:99 - Alice: hi'' \<in> set (split_on newline ?C)"
    unfolding sp by simp
  have cp: "chosen_path (init (Some ''chat.txt'')) None = Some ''chat.txt''"
    by (simp add: chosen_path_def init_def)
  have ne: "''chat.txt'' \<noteq> []" by simp
  have f: "[''chat.txt'' \<mapsto> ?C] ''chat.txt'' = Some ?C" by simp
  from unparsable_timestamp_aborts_load[where fs = "[''chat.txt'' \<mapsto> ?C]"
      and srt = "sort_key (\<lambda>m. dt_key (datetime m))",
      OF cp ne f mem match_bad_line datetime_bad_stamp]
  obtain bad ts' a' b' where b: "bad \<in> set (split_on newline ?C)"
      "match_message bad = Some [ts', a', b']"
      "parse_datetime ts' = Inl (ValueError (''Could not parse datetime: '' @ ts'))"
      "load_chat (sort_key (\<lambda>m. dt_key (datetime m))) [''chat.txt'' \<mapsto> ?C]
          (init (Some ''chat.txt'')) None
         = Inl (ValueError (''Could not parse datetime: '' @ ts'))"
    by blast
  from b(1) have "bad = ''1/1/23, 10:30 - Alice: hello'' \<or> bad = ''99/99/9999, 99:99 - Alice: hi''"
    unfolding sp by simp
  then show ?thesis
  proof
    assume "bad = ''1/1/23, 10:30 - Alice: hello''"
    with b(2) match_hello_line have "ts' = ''1/1/23, 10:30''" by simp
    with b(3) datetime_short_stamp show ?thesis by simp
  next
    assume "bad = ''99/99/9999, 99:99 - Alice: hi''"
    with b(2) match_bad_line have "ts' = ''99/99/9999, 99:99''" by simp
    with b(4) show ?thesis by simp
  qed
qed

text \<open>
  Claim C4. When the file exists and parses, \<open>load_chat\<close> returns a table that has
  exactly the parsed messages, each once, sorted by timestamp in non-decreasing order,
  whatever the order of the lines of the file. The sort is the one of pandas, of which
  only its contract is used.
\<close>

theorem load_chat_sorted:
  assumes "sorts_by_datetime srt"
    and "chosen_path self fp = Some p" and "p \<noteq> []" and "fs p = Some content"
    and "parse_content content = Inr msgs"
  shows "\<exists>table. load_chat srt fs self fp = Inr (table, self\<lparr>messages := msgs, df := Some table\<rparr>)
           \<and> sorted (map (\<lambda>m. dt_key (datetime m)) table) \<and> mset table = mset msgs"
  using assms by (auto simp: load_chat_def Let_def sorts_by_datetime_def)

theorem load_chat_sorted_witness:
  "load_chat (sort_key (\<lambda>m. dt_key (datetime m)))
      [''chat.txt'' \<mapsto> join_on newline [''12/25/2023, 10:30 AM - Alice: Hey! Merry Christmas!'',
                                             ''1/1/23, 10:30 - Alice: hello'']]
      (init (Some ''chat.txt'')) None
   = Inr ([\<lparr>datetime = \<lparr>year = 2023, month = 1, day = 1, hour = 10, minute = 30, second = 0\<rparr>,
            author = ''Alice'', message = ''hello'', is_media = False, is_system = False\<rparr>,
           \<lparr>datetime = \<lparr>year = 2023, month = 12, day = 25, hour = 10, minute = 30, second = 0\<rparr>,
            author = ''Alice'', message = ''Hey! Merry Christmas!'',
            is_media = False, is_system = False\<rparr>],
          \<lparr>file_path = Some ''chat.txt'',
           messages =
            [\<lparr>datetime = \<lparr>year = 2023, month = 12, day = 25, hour = 10, minute = 30, second = 0\<rparr>,
              author = ''Alice'', message = ''Hey! Merry Christmas!'',
              is_media = False, is_system = False\<rparr>,
             \<lparr>datetime = \<lparr>year = 2023, month = 1, day = 1, hour = 10, minute = 30, second = 0\<rparr>,
              author = ''Alice'', message = ''hello'', is_media = False, is_system = False\<rparr>],
           df = Some
            [\<lparr>datetime = \<lparr>year = 2023, month = 1, day = 1, hour = 10, minute = 30, second = 0\<rparr>,
              author = ''Alice'', message = ''hello'', is_media = False, is_system = False\<rparr>,
             \<lparr>datetime = \<lparr>year = 2023, month = 12, day = 25, hour = 10, minute = 30, second = 0\<rparr>,
              author = ''Alice'', message = ''Hey! Merry Christmas!'',
              is_media = False, is_system = False\<rparr>]\<rparr>)
   \<and> sorted (map (\<lambda>m. dt_key (datetime m))
       [\<lparr>datetime = \<lparr>year = 2023, month = 1, day = 1, hour = 10, minute = 30, second = 0\<rparr>,
         author = ''Alice'', message = ''hello'', is_media = False, is_system = False\<rparr>,
        \<lparr>datetime = \<lparr>year = 2023, month = 12, day = 25, hour = 10, minute = 30, second = 0\<rparr>,
         author = ''Alice'', message = ''Hey! Merry Christmas!'',
         is_media = False, is_system = False\<rparr>])"
proof -
  have cp: "chosen_path (init (Some ''chat.txt'')) None = Some ''chat.txt''"
    by (simp add: chosen_path_def init_def)
  have ne: "''chat.txt'' \<noteq> []" by simp
  have f: "[''chat.txt'' \<mapsto> join_on newline [''12/25/2023, 10:30 AM - Alice: Hey! Merry Christmas!'',
                                             ''1/1/23, 10:30 - Alice: hello'']] ''chat.txt''
      = Some (join_on newline [''12/25/2023, 10:30 AM - Alice: Hey! Merry Christmas!'',
                                ''1/1/23, 10:30 - Alice: hello''])" by simp
  from load_chat_sorted[where fs = "[''chat.txt'' \<mapsto> join_on newline [''12/25/2023, 10:30 AM - Alice: Hey! Merry Christmas!'',
                                             ''1/1/23, 10:30 - Alice: hello'']]",
      OF sort_key_sorts_by_datetime cp ne f parse_content_two_lines]
  obtain table where t: "load_chat (sort_key (\<lambda>m. dt_key (datetime m)))
      [''chat.txt'' \<mapsto> join_on newline [''12/25/2023, 10:30 AM - Alice: Hey! Merry Christmas!'',
                                             ''1/1/23, 10:30 - Alice: hello'']]
      (init (Some ''chat.txt'')) None
       = Inr (table, (init (Some ''chat.txt''))\<lparr>messages :=
            [\<lparr>datetime = \<lparr>year = 2023, month = 12, day = 25, hour = 10, minute = 30, second = 0\<rparr>,
              author = ''Alice'', message = ''Hey! Merry Christmas!'',
              is_media = False, is_system = False\<rparr>,
             \<lparr>datetime = \<lparr>year = 2023, month = 1, day = 1, hour = 10, minute = 30, second = 0\<rparr>,
              author = ''Alice'', message = ''hello'', is_media = False, is_system = False\<rparr>],
            df := Some table\<rparr>)"
    and s: "sorted (map (\<lambda>m. dt_key (datetime m)) table)"
    by auto
  from t load_chat_two_lines
  have "table = [\<lparr>datetime = \<lparr>year = 2023, month = 1, day = 1, hour = 10, minute = 30, second = 0\<rparr>,
            author = ''Alice'', message = ''hello'', is_media = False, is_system = False\<rparr>,
           \<lparr>datetime = \<lparr>year = 2023, month = 12, day = 25, hour = 10, minute = 30, second = 0\<rparr>,
            author = ''Alice'', message = ''Hey! Merry Christmas!'',
            is_media = False, is_system = False\<rparr>]"
    by simp
  with t s show ?thesis by (simp add: init_def)
qed

text \<open>
  Claim C8. When the file exists and none of its lines is a header line, as for an empty
  file or a file of blank lines, \<open>load_chat\<close> returns the empty table and raises nothing,
  and \<open>get_chat_info\<close> on the parser so loaded returns the empty dictionary. This holds
  for the path given as argument as for the path given to the constructor.
\<close>

theorem no_header_gives_empty_table:
  assumes "chosen_path self fp = Some p" and "p \<noteq> []" and "fs p = Some content"
    and "\<forall>line\<in>set (split_on newline content). match_message line = None"
  shows "load_chat srt fs self fp = Inr ([], self\<lparr>messages := [], df := Some []\<rparr>)
       \<and> get_chat_info (self\<lparr>messages := [], df := Some []\<rparr>) = EmptyDict"
proof -
  have "parse_lines (split_on newline content) [] None = Inr ([], None)"
    using assms(4) by (intro parse_lines_no_header) simp
  then have "parse_content content = Inr []" by (simp add: parse_content_def seal_def)
  with assms(1,2,3) show ?thesis by (simp add: load_chat_def get_chat_info_def)
qed

theorem no_header_gives_empty_table_witness:
  "load_chat (sort_key (\<lambda>m. dt_key (datetime m)))
       [''chat.txt'' \<mapsto> join_on newline [''  '', ''photo.jpg'']]
       (init (Some ''chat.txt'')) None
     = Inr ([], \<lparr>file_path = Some ''chat.txt'', messages = [], df = Some []\<rparr>)
   \<and> get_chat_info \<lparr>file_path = Some ''chat.txt'', messages = [], df = Some []\<rparr> = EmptyDict"
proof -
  have "split_on newline (join_on newline [''  '', ''photo.jpg'']) = [''  '', ''photo.jpg'']"
    by (rule split_on_join_on) (simp_all add: newline_def)
  then have h: "\<forall>line\<in>set (split_on newline (join_on newline [''  '', ''photo.jpg''])). match_message line = None"
    by (simp only: list.set ball_simps match_photo_line match_message_blank strip_facts)
  have cp: "chosen_path (init (Some ''chat.txt'')) None = Some ''chat.txt''"
    by (simp add: chosen_path_def init_def)
  have ne: "''chat.txt'' \<noteq> []" by simp
  have f: "[''chat.txt'' \<mapsto> join_on newline [''  '', ''photo.jpg'']] ''chat.txt''
      = Some (join_on newline [''  '', ''photo.jpg''])" by simp
  from no_header_gives_empty_table[where fs = "[''chat.txt'' \<mapsto> join_on newline [''  '', ''photo.jpg'']]"
        and srt = "sort_key (\<lambda>m. dt_key (datetime m))", OF cp ne f h]
  show ?thesis by (simp add: init_def)
qed

section \<open>Bodies of the messages\<close>

text \<open>
  Claim C9, amended. A message can be sealed with an empty body: the body of a header line
  is stripped, and the patterns accept a header line whose body is only whitespace. That
  is the only exception, and it concerns that message alone. The body of every message of
  a parsed chat is empty or has a character that is not whitespace, and it has such a
  character whenever the body captured by the header line that opened the message has one.
\<close>

theorem sealed_body_not_blank:
  assumes "parse_content content = Inr ms"
  shows "(\<forall>m\<in>set ms. message m = [] \<or> (\<exists>c\<in>set (message m). \<not> isspace c))
       \<and> list_all2 (\<lambda>h m. strip (header_body h) \<noteq> [] \<longrightarrow> (\<exists>c\<in>set (message m). \<not> isspace c))
            (filter is_header (split_on newline content)) ms"
proof -
  from parse_content_Inr[OF assms] obtain msgs cur
    where r: "parse_lines (split_on newline content) [] None = Inr (msgs, cur)"
      and ms: "ms = seal msgs cur" by blast
  from parse_lines_body_invariant[OF r] ms
  have 1: "\<forall>m\<in>set ms. message m = [] \<or> (\<exists>c\<in>set (message m). \<not> isspace c)" by simp
  from parse_lines_opened_by[OF r, of "[]"] ms
  have "list_all2 opened_by (filter is_header (split_on newline content)) ms"
    by (simp add: seal_def)
  moreover have "\<exists>c\<in>set (message m). \<not> isspace c"
    if "opened_by h m" "strip (header_body h) \<noteq> []" for h m
  proof -
    from strip_nonspace[OF that(2)] obtain c where "c \<in> set (strip (header_body h))" "\<not> isspace c"
      by blast
    moreover from that(1) have "set (strip (header_body h)) \<subseteq> set (message m)"
      by (simp add: opened_by_def set_mono_prefix)
    ultimately show ?thesis by blast
  qed
  ultimately have 2: "list_all2 (\<lambda>h m. strip (header_body h) \<noteq> [] \<longrightarrow> (\<exists>c\<in>set (message m). \<not> isspace c))
            (filter is_header (split_on newline content)) ms"
    by (auto elim!: list_all2_mono)
  from 1 2 show ?thesis by (rule conjI)
qed

theorem sealed_body_not_blank_witness:
  "parse_content (join_on newline [''1/1/23, 10:30 - Alice:   '', ''1/1/23, 10:30 - Alice: hello''])
     = Inr [\<lparr>datetime = \<lparr>year = 2023, month = 1, day = 1, hour = 10, minute = 30, second = 0\<rparr>,
             author = ''Alice'', message = [], is_media = False, is_system = False\<rparr>,
            \<lparr>datetime = \<lparr>year = 2023, month = 1, day = 1, hour = 10, minute = 30, second = 0\<rparr>,
             author = ''Alice'', message = ''hello'', is_media = False, is_system = False\<rparr>]
   \<and> (\<exists>c. c \<in> set ''hello'' \<and> \<not> isspace c)"
proof -
  from sealed_body_not_blank[OF parse_content_blank_then_hello, THEN conjunct1]
  have "\<exists>c. c \<in> set ''hello'' \<and> \<not> isspace c" by auto
  with parse_content_blank_then_hello show ?thesis by (rule conjI)
qed

text \<open>
  The header line \<open>1/1/23, 10:30 - Alice:\<close> followed by three spaces is accepted, with
  a body of two spaces, and gives a message whose body is empty.
\<close>

theorem blank_body_sealed:
  "parse_content ''1/1/23, 10:30 - Alice:   ''
     = Inr [\<lparr>datetime = \<lparr>year = 2023, month = 1, day = 1, hour = 10, minute = 30, second = 0\<rparr>,
             author = ''Alice'', message = [], is_media = False, is_system = False\<rparr>]"
  using parse_content_single_header[OF _ match_blank_body_line datetime_short_stamp]
  by (simp add: newline_def open_message_def strip_facts classify_blank)

section \<open>Headers and their continuation lines\<close>

text \<open>
  Claim C5, amended. A chat made of header lines, each followed by any number of
  continuation lines, gives exactly one message for each header line, in the same order.
  The body of a message is not the body that its header line captures: it is that body
  stripped of leading and trailing whitespace, joined by newlines with the stripped
  continuation lines. Two header lines in a row give two messages, also when they have the
  same author.
\<close>

theorem blocks_give_messages:
  assumes "\<forall>(h, cs)\<in>set bs. is_header h \<and> newline \<notin> set h
              \<and> (\<forall>c\<in>set cs. is_continuation c \<and> newline \<notin> set c)"
  shows "\<exists>ms. parse_content (join_on newline (concat (map (\<lambda>(h, cs). h # cs) bs))) = Inr ms
          \<and> length ms = length bs
          \<and> map message ms
              = map (\<lambda>(h, cs). join_on newline (strip (header_body h) # map strip cs)) bs"
proof (cases "bs = []")
  case True
  then show ?thesis by (simp add: parse_content_empty)
next
  case False
  let ?ls = "concat (map (\<lambda>(h, cs). h # cs) bs)"
  have hyp: "\<forall>(h, cs)\<in>set bs.
       (\<exists>ts a b dt. match_message h = Some [ts, a, b] \<and> parse_datetime ts = Inr dt)
       \<and> (\<forall>c\<in>set cs. strip c \<noteq> [] \<and> match_message c = None)"
  proof (clarify, intro conjI)
    fix h cs assume in_bs: "(h, cs) \<in> set bs"
    with assms have "is_header h" by auto
    from is_headerD[OF this]
    show "\<exists>ts a b dt. match_message h = Some [ts, a, b] \<and> parse_datetime ts = Inr dt" by blast
    from assms in_bs have "\<forall>c\<in>set cs. is_continuation c" by auto
    then show "\<forall>c\<in>set cs. strip c \<noteq> [] \<and> match_message c = None"
      by (simp add: is_continuation_def)
  qed
  from parse_lines_blocks[OF hyp, of "[]" None] obtain ms m c
    where r: "parse_lines ?ls [] None = Inr (m, c)"
      and s: "seal m c = seal [] None @ ms"
      and l: "list_all2 block_message bs ms" by blast
  have ne: "?ls \<noteq> []" using False by (cases bs) auto
  have nl: "\<forall>l\<in>set ?ls. newline \<notin> set l" using assms by fastforce
  from parse_content_of_lines[OF ne nl r] s
  have "parse_content (join_on newline ?ls) = Inr ms" by (simp add: seal_def)
  moreover from l have "length ms = length bs" by (simp add: list_all2_lengthD)
  moreover note list_all2_block_bodies[OF l]
  ultimately show ?thesis by blast
qed

theorem blocks_give_messages_witness:
  "\<exists>ms. parse_content (join_on newline [''1/1/23, 10:30 - Alice: hello'',
                                         ''1/1/23, 10:30 - Alice:  hi'', ''photo.jpg'']) = Inr ms
        \<and> length ms = 2
        \<and> map message ms = [''hello'', ''hi'' @ newline # ''photo.jpg'']"
  using blocks_give_messages[of "[(''1/1/23, 10:30 - Alice: hello'', []),
                                   (''1/1/23, 10:30 - Alice:  hi'', [''photo.jpg''])]"]
  by (simp add: is_headerI[OF match_hello_line datetime_short_stamp]
        is_headerI[OF match_padded_line datetime_short_stamp]
        header_body_eq[OF match_hello_line] header_body_eq[OF match_padded_line]
        is_continuation_def match_photo_line strip_facts newline_def numeral_2_eq_2)

text \<open>
  The header line \<open>1/1/23, 10:30 - Alice:  hi\<close>, with two spaces after the colon,
  captures the body \<open> hi\<close>, with a leading space, and gives a message of body \<open>hi\<close>.
\<close>

theorem header_body_is_stripped:
  "match_message ''1/1/23, 10:30 - Alice:  hi'' = Some [''1/1/23, 10:30'', ''Alice'', '' hi'']
   \<and> parse_content ''1/1/23, 10:30 - Alice:  hi''
     = Inr [\<lparr>datetime = \<lparr>year = 2023, month = 1, day = 1, hour = 10, minute = 30, second = 0\<rparr>,
             author = ''Alice'', message = ''hi'', is_media = False, is_system = False\<rparr>]"
  using match_padded_line parse_content_padded by simp

section \<open>Order of the patterns\<close>

text \<open>
  Claim C6, amended. The list of patterns of \<open>_match_message\<close> does not start with
  the bracketed pattern: its order is the unbracketed pattern with AM/PM, the bracketed
  pattern, the unbracketed pattern without AM/PM. No line matches both the bracketed and
  an unbracketed pattern, since one starts with a bracket and the others with a digit, so
  a line that the bracketed pattern accepts is parsed by the bracketed pattern whatever the
  order.
\<close>

theorem bracketed_line_parsed_as_bracketed:
  assumes "re_match IOS_PATTERN line = Some g"
  shows "match_message line = Some g
       \<and> re_match ANDROID_PATTERN line = None \<and> re_match ALTERNATIVE_PATTERN line = None
       \<and> precedes ANDROID_PATTERN IOS_PATTERN \<and> precedes IOS_PATTERN ALTERNATIVE_PATTERN"
  using assms ios_excludes_unbracketed[OF assms]
  by (simp add: match_message_def patterns_def precedes_def pattern_distinct)

theorem bracketed_line_parsed_as_bracketed_witness:
  "match_message ''[12/25/2023, 10:30:00 AM] Alice: Hey! Merry Christmas!''
     = Some [''12/25/2023, 10:30:00 AM'', ''Alice'', ''Hey! Merry Christmas!'']
   \<and> re_match ANDROID_PATTERN ''[12/25/2023, 10:30:00 AM] Alice: Hey! Merry Christmas!'' = None
   \<and> re_match ALTERNATIVE_PATTERN ''[12/25/2023, 10:30:00 AM] Alice: Hey! Merry Christmas!'' = None
   \<and> precedes ANDROID_PATTERN IOS_PATTERN \<and> precedes IOS_PATTERN ALTERNATIVE_PATTERN"
  by (rule bracketed_line_parsed_as_bracketed[OF ios_line_bracketed])

text \<open>
  The unbracketed pattern with AM/PM comes before the bracketed pattern in the list, and
  the bracketed pattern does not come before it.
\<close>

theorem bracketed_pattern_not_first:
  "precedes ANDROID_PATTERN IOS_PATTERN \<and> \<not> precedes IOS_PATTERN ANDROID_PATTERN"
  by (simp add: precedes_def patterns_def pattern_distinct)

section \<open>Classification of system messages\<close>

text \<open>
  Claim C10. Whether a message is classified as a system message depends on its body only:
  \<open>_is_system_message\<close> receives the author but never reads it, so two messages
  with the same body and different authors get the same flag.
\<close>

theorem is_system_message_author_independent:
  "is_system_message a1 body = is_system_message a2 body"
  by (simp add: is_system_message_def)

end
